theory Spec2Isabelle
  imports Main "HOL-Library.Sublist" "HOL-Library.AList" "HOL-Library.Code_Target_Nat"
begin

section \<open>The environment: errors, a file tree, the console\<close>

text \<open>
  A JavaScript \<open>Error\<close> object is its message. Every \<open>throw\<close>, promise rejection and
  \<open>catch\<close> of the two scripts is a branch on a value of type \<open>error + 'a\<close>.
\<close>

datatype error = Error string

fun message :: "error \<Rightarrow> string" where
  "message (Error m) = m"

text \<open>
  Paths are lists of components relative to the working directory \<open>process.cwd()\<close>, which
  is the empty path and always a directory. The tree holds regular files and directories;
  symbolic links, permissions and special files are outside the model. It is an association
  list, so that \<open>readdir\<close> can enumerate it; an update replaces a binding in place.
\<close>

type_synonym path = "string list"

datatype node = File string | Dir

type_synonym fs = "(path \<times> node) list"

definition lookup :: "fs \<Rightarrow> path \<Rightarrow> node option" where
  "lookup t p = (if p = [] then Some Dir else map_of t p)"

record Dirent =
  dirent_name :: string
  dirent_isFile :: bool

text \<open>\<open>mkdir(p, {recursive: true})\<close>: every missing component is created, an existing
  directory is accepted, a regular file on the way is an error.\<close>

fun mkdir_from :: "path \<Rightarrow> path \<Rightarrow> fs \<Rightarrow> error + fs" where
  "mkdir_from pre [] t = Inr t"
| "mkdir_from pre (c # cs) t =
     (case lookup t (pre @ [c]) of
        None \<Rightarrow> mkdir_from (pre @ [c]) cs (AList.update (pre @ [c]) Dir t)
      | Some Dir \<Rightarrow> mkdir_from (pre @ [c]) cs t
      | Some (File _) \<Rightarrow>
          Inl (Error (if cs = [] then ''EEXIST: file already exists, mkdir''
                      else ''ENOTDIR: not a directory, mkdir'')))"

definition fs_mkdir :: "path \<Rightarrow> fs \<Rightarrow> error + fs" where
  "fs_mkdir p t = mkdir_from [] p t"

text \<open>\<open>rm(p, {recursive: true, force: true})\<close>: the path and everything below it goes; a
  missing path is not an error.\<close>

definition fs_rm :: "path \<Rightarrow> fs \<Rightarrow> fs" where
  "fs_rm p t = filter (\<lambda>(q, n). \<not> prefix p q) t"

definition fs_stat :: "path \<Rightarrow> fs \<Rightarrow> error + bool" where
  "fs_stat p t =
     (case lookup t p of
        None \<Rightarrow> Inl (Error ''ENOENT: no such file or directory, stat'')
      | Some (File _) \<Rightarrow> Inr True
      | Some Dir \<Rightarrow> Inr False)"

definition fs_readFile :: "path \<Rightarrow> fs \<Rightarrow> error + string" where
  "fs_readFile p t =
     (case lookup t p of
        None \<Rightarrow> Inl (Error ''ENOENT: no such file or directory, open'')
      | Some (File c) \<Rightarrow> Inr c
      | Some Dir \<Rightarrow> Inl (Error ''EISDIR: illegal operation on a directory, read''))"

definition fs_writeFile :: "path \<Rightarrow> string \<Rightarrow> fs \<Rightarrow> error + fs" where
  "fs_writeFile p c t =
     (case lookup t (butlast p) of
        None \<Rightarrow> Inl (Error ''ENOENT: no such file or directory, open'')
      | Some (File _) \<Rightarrow> Inl (Error ''ENOTDIR: not a directory, open'')
      | Some Dir \<Rightarrow>
          (case lookup t p of
             Some Dir \<Rightarrow> Inl (Error ''EISDIR: illegal operation on a directory, open'')
           | _ \<Rightarrow> Inr (AList.update p (File c) t)))"

definition is_file_node :: "node option \<Rightarrow> bool" where
  "is_file_node n = (case n of Some (File _) \<Rightarrow> True | _ \<Rightarrow> False)"

definition children :: "path \<Rightarrow> fs \<Rightarrow> string list" where
  "children d t = remdups (map last (filter (\<lambda>q. q \<noteq> [] \<and> butlast q = d) (map fst t)))"

definition dir_entries :: "path \<Rightarrow> fs \<Rightarrow> Dirent list" where
  "dir_entries d t =
     map (\<lambda>n. \<lparr>dirent_name = n, dirent_isFile = is_file_node (lookup t (d @ [n]))\<rparr>)
       (children d t)"

definition fs_readdir :: "path \<Rightarrow> fs \<Rightarrow> error + Dirent list" where
  "fs_readdir d t =
     (case lookup t d of
        None \<Rightarrow> Inl (Error ''ENOENT: no such file or directory, scandir'')
      | Some (File _) \<Rightarrow> Inl (Error ''ENOTDIR: not a directory, scandir'')
      | Some Dir \<Rightarrow> Inr (dir_entries d t))"

text \<open>
  The world a run acts on: the file tree, the console lines in the order they were
  printed, and the trace of every file-system call and every call of the encoder, in the
  order they were issued (a call is traced whether it succeeds or not).
\<close>

datatype level = LOG | INFO | WARN | ERROR

datatype 'j op =
    Mkdir path
  | Rm path
  | Readdir path
  | Stat path
  | ExistsSync path
  | ReadFile path
  | WriteFile path string
  | Encode 'j

record 'j world =
  files :: fs
  console :: "(level \<times> string) list"
  ops :: "'j op list"

definition trace :: "'j op \<Rightarrow> 'j world \<Rightarrow> 'j world" where
  "trace x w = w\<lparr>ops := ops w @ [x]\<rparr>"

definition say :: "level \<Rightarrow> string \<Rightarrow> 'j world \<Rightarrow> 'j world" where
  "say l m w = w\<lparr>console := console w @ [(l, m)]\<rparr>"

definition mkdir :: "path \<Rightarrow> 'j world \<Rightarrow> (error + unit) \<times> 'j world" where
  "mkdir p w =
     (case fs_mkdir p (files w) of
        Inl e \<Rightarrow> (Inl e, trace (Mkdir p) w)
      | Inr t \<Rightarrow> (Inr (), (trace (Mkdir p) w)\<lparr>files := t\<rparr>))"

definition rm :: "path \<Rightarrow> 'j world \<Rightarrow> (error + unit) \<times> 'j world" where
  "rm p w = (Inr (), (trace (Rm p) w)\<lparr>files := fs_rm p (files w)\<rparr>)"

definition stat :: "path \<Rightarrow> 'j world \<Rightarrow> (error + bool) \<times> 'j world" where
  "stat p w = (fs_stat p (files w), trace (Stat p) w)"

definition existsSync :: "path \<Rightarrow> 'j world \<Rightarrow> bool \<times> 'j world" where
  "existsSync p w = (lookup (files w) p \<noteq> None, trace (ExistsSync p) w)"

definition readFile :: "path \<Rightarrow> 'j world \<Rightarrow> (error + string) \<times> 'j world" where
  "readFile p w = (fs_readFile p (files w), trace (ReadFile p) w)"

definition writeFile :: "path \<Rightarrow> string \<Rightarrow> 'j world \<Rightarrow> (error + unit) \<times> 'j world" where
  "writeFile p c w =
     (case fs_writeFile p c (files w) of
        Inl e \<Rightarrow> (Inl e, trace (WriteFile p c) w)
      | Inr t \<Rightarrow> (Inr (), (trace (WriteFile p c) w)\<lparr>files := t\<rparr>))"

definition readdir :: "path \<Rightarrow> 'j world \<Rightarrow> (error + Dirent list) \<times> 'j world" where
  "readdir d w = (fs_readdir d (files w), trace (Readdir d) w)"

section \<open>Strings and paths\<close>

fun join_with :: "string \<Rightarrow> string list \<Rightarrow> string" where
  "join_with sep [] = []"
| "join_with sep [x] = x"
| "join_with sep (x # y # ys) = x @ sep @ join_with sep (y # ys)"

text \<open>\<open>path.relative(process.cwd(), target) || '.'\<close>\<close>

definition relativeFromCwd :: "path \<Rightarrow> string" where
  "relativeFromCwd target = (if target = [] then ''.'' else join_with ''/'' target)"

text \<open>\<open>String.prototype.toLowerCase\<close> on the ASCII letters; no other character maps to a
  letter of \<open>.json\<close>.\<close>

definition lower_char :: "char \<Rightarrow> char" where
  "lower_char c =
     (if 65 \<le> (of_char c :: nat) \<and> (of_char c :: nat) \<le> 90
      then char_of ((of_char c :: nat) + 32) else c)"

definition toLowerCase :: "string \<Rightarrow> string" where
  "toLowerCase s = map lower_char s"

definition endsWith :: "string \<Rightarrow> string \<Rightarrow> bool" where
  "endsWith s x = suffix x s"

fun last_dot :: "string \<Rightarrow> nat option" where
  "last_dot [] = None"
| "last_dot (c # cs) =
     (case last_dot cs of
        Some i \<Rightarrow> Some (Suc i)
      | None \<Rightarrow> if c = CHR ''.'' then Some 0 else None)"

text \<open>\<open>path.parse(base).name\<close> for a base name without a separator: the part before the
  last dot, unless that dot is the first character or the name is \<open>..\<close>.\<close>

definition parse_name :: "string \<Rightarrow> string" where
  "parse_name base =
     (case last_dot base of
        None \<Rightarrow> base
      | Some d \<Rightarrow> if d = 0 \<or> base = ''..'' then base else take d base)"

text \<open>\<open>path.basename(p, ext)\<close> on the last component of \<open>p\<close>, for a path with a directory
  part: the extension is cut off when the name ends with it and is longer than it.\<close>

definition basename :: "path \<Rightarrow> string \<Rightarrow> string" where
  "basename p ext =
     (if p = [] then []
      else if ext \<noteq> [] \<and> suffix ext (last p) \<and> last p \<noteq> ext
           then take (length (last p) - length ext) (last p)
      else last p)"

fun dec :: "nat \<Rightarrow> string" where
  "dec n = (if n < 10 then [''0123456789'' ! n]
            else dec (n div 10) @ [''0123456789'' ! (n mod 10)])"

declare dec.simps [simp del]

section \<open>The application programming interface the scripts import\<close>

text \<open>
  A JavaScript number, as far as \<open>Number.parseInt\<close> can return one: \<open>NaN\<close>, an infinity
  with its sign (\<open>True\<close> is negative), or a sign and an integer that a double holds
  exactly; \<open>Num True 0\<close> is the negative zero.
\<close>

datatype number = NaN | Num bool nat | Infinity bool

record EncodeOptions =
  eo_delimiter :: "string option"
  eo_indent :: number
  eo_keyFolding :: string
  eo_flattenDepth :: "number option"

text \<open>
  \<open>JSON.parse\<close> and the encoder \<open>encode\<close> of \<open>packages/toon/src\<close> are parameters of every
  definition that calls them: \<open>JSON_parse :: string \<Rightarrow> error + 'j\<close> and
  \<open>encode :: 'j \<Rightarrow> EncodeOptions \<Rightarrow> error + string\<close>, where \<open>'j\<close> is the type of parsed
  documents. So is \<open>util.parseArgs\<close>, which turns the argument vector into the raw option
  values or throws.
\<close>

text \<open>Modelled from the spec: the constants \<open>DELIMITERS\<close> and \<open>DEFAULT_DELIMITER\<close> of
  \<open>packages/toon/src\<close> are not in the sources; the delimiter is one of comma, tab and
  pipe and defaults to comma.\<close>

definition DELIMITERS :: "string list" where
  "DELIMITERS = ['','', [CHR 0x09], ''|'']"

definition DEFAULT_DELIMITER :: string where
  "DEFAULT_DELIMITER = '',''"

section \<open>The batch converter with options and statistics\<close>

text \<open>The source file \<open>src/unnamed/part_000\<close>.\<close>

definition INPUT_DIR :: path where
  "INPUT_DIR = [''input_json'']"

definition OUTPUT_DIR :: path where
  "OUTPUT_DIR = [''output_toon'']"

record ParsedValues =
  v_indent :: "string option"
  v_delimiter :: "string option"
  v_keyFolding :: "string option"
  v_flattenDepth :: "string option"
  v_clean :: bool
  v_verbose :: bool

record CliOptions =
  indent :: number
  delimiter :: string
  keyFolding :: string
  flattenDepth :: "number option"
  clean :: bool
  verbose :: bool

record ConversionStats =
  processed :: nat
  converted :: nat
  skipped :: nat
  failed :: nat

text \<open>
  The double nearest to a natural number, ties going to the even significand: numbers
  below \<open>2^53\<close> are exact, larger ones keep their 53 leading bits, and what rounds to
  \<open>2^1024\<close> or more is infinite (\<open>None\<close>).
\<close>

fun bit_length :: "nat \<Rightarrow> nat" where
  "bit_length n = (if n = 0 then 0 else Suc (bit_length (n div 2)))"

declare bit_length.simps [simp del]

definition to_double :: "nat \<Rightarrow> nat option" where
  "to_double n =
     (if n < 2 ^ 53 then Some n
      else
        (let e = bit_length n - 53;
             q = n div 2 ^ e;
             r = n mod 2 ^ e;
             m = (if 2 ^ e < 2 * r \<or> (2 * r = 2 ^ e \<and> odd q) then q + 1 else q)
         in if 2 ^ 1024 \<le> m * 2 ^ e then None else Some (m * 2 ^ e)))"

text \<open>
  A string is the UTF-8 text of the JavaScript string. The white space that
  \<open>Number.parseInt\<close> skips is every \<open>WhiteSpace\<close> and \<open>LineTerminator\<close> of the language:
  tab, line feed, vertical tab, form feed, carriage return, space, and the code points
  U+00A0, U+1680, U+2000 to U+200A, U+2028, U+2029, U+202F, U+205F, U+3000 and U+FEFF.
\<close>

definition white_space :: "string list" where
  "white_space =
     [[CHR 0x09], [CHR 0x0A], [CHR 0x0B], [CHR 0x0C], [CHR 0x0D], [CHR 0x20],
      [CHR 0xC2, CHR 0xA0], [CHR 0xE1, CHR 0x9A, CHR 0x80],
      [CHR 0xE2, CHR 0x80, CHR 0x80], [CHR 0xE2, CHR 0x80, CHR 0x81],
      [CHR 0xE2, CHR 0x80, CHR 0x82], [CHR 0xE2, CHR 0x80, CHR 0x83],
      [CHR 0xE2, CHR 0x80, CHR 0x84], [CHR 0xE2, CHR 0x80, CHR 0x85],
      [CHR 0xE2, CHR 0x80, CHR 0x86], [CHR 0xE2, CHR 0x80, CHR 0x87],
      [CHR 0xE2, CHR 0x80, CHR 0x88], [CHR 0xE2, CHR 0x80, CHR 0x89],
      [CHR 0xE2, CHR 0x80, CHR 0x8A], [CHR 0xE2, CHR 0x80, CHR 0xA8],
      [CHR 0xE2, CHR 0x80, CHR 0xA9], [CHR 0xE2, CHR 0x80, CHR 0xAF],
      [CHR 0xE2, CHR 0x81, CHR 0x9F], [CHR 0xE3, CHR 0x80, CHR 0x80],
      [CHR 0xEF, CHR 0xBB, CHR 0xBF]]"

text \<open>The number of bytes of the white-space character a string starts with; 0 when it
  starts with none.\<close>

definition white_space_length :: "string \<Rightarrow> nat" where
  "white_space_length s =
     (case find (\<lambda>q. prefix q s) white_space of None \<Rightarrow> 0 | Some q \<Rightarrow> length q)"

function trim_start :: "string \<Rightarrow> string" where
  "trim_start s =
     (if white_space_length s = 0 then s else trim_start (drop (white_space_length s) s))"
  by pat_completeness auto
termination
proof (relation "measure length")
  show "wf (measure length)" by simp
next
  fix s :: string
  assume a: "white_space_length s \<noteq> 0"
  then obtain q where "find (\<lambda>q. prefix q s) white_space = Some q" "q \<noteq> []"
    by (auto simp: white_space_length_def split: option.splits)
  then have "s \<noteq> []" by (auto simp: find_Some_iff)
  with a show "(drop (white_space_length s) s, s) \<in> measure length" by simp
qed

declare trim_start.simps [simp del]

text \<open>
  \<open>Number.parseInt(s, 10)\<close>: leading white space is skipped, one sign is read, then the
  longest run of decimal digits; no digit gives \<open>NaN\<close>. Whatever follows the digits is
  ignored. The digits are read exactly and the result is the nearest double, with the
  sign (so \<open>-0\<close> gives the negative zero).
\<close>

definition is_digit :: "char \<Rightarrow> bool" where
  "is_digit c = (c \<in> set ''0123456789'')"

definition digits_value :: "string \<Rightarrow> nat" where
  "digits_value ds = foldl (\<lambda>a c. 10 * a + ((of_char c :: nat) - 48)) 0 ds"

definition parseInt :: "string \<Rightarrow> number" where
  "parseInt s =
     (let t = trim_start s;
          neg = (t \<noteq> [] \<and> hd t = CHR ''-'');
          u = (if t \<noteq> [] \<and> (hd t = CHR ''-'' \<or> hd t = CHR ''+'') then tl t else t);
          ds = takeWhile is_digit u
      in if ds = [] then NaN
         else (case to_double (digits_value ds) of
                 None \<Rightarrow> Infinity neg
               | Some m \<Rightarrow> Num neg m))"

text \<open>\<open>Number.isNaN(x) || x < 0\<close>; the negative zero is not below zero.\<close>

definition nan_or_negative :: "number \<Rightarrow> bool" where
  "nan_or_negative x =
     (case x of NaN \<Rightarrow> True | Num neg m \<Rightarrow> neg \<and> 0 < m | Infinity neg \<Rightarrow> neg)"

definition parseCliOptions ::
  "(string list \<Rightarrow> error + ParsedValues) \<Rightarrow> string list \<Rightarrow> error + CliOptions" where
  "parseCliOptions parseArgs argv =
     (case parseArgs argv of
        Inl e \<Rightarrow> Inl e
      | Inr values \<Rightarrow>
          (let indent_n = (case v_indent values of
                             None \<Rightarrow> Num False 2
                           | Some s \<Rightarrow> if s \<noteq> [] then parseInt s else Num False 2)
           in if nan_or_negative indent_n
              then Inl (Error ''`--indent` must be a non-negative integer'')
              else
                (let delimiter_s = (case v_delimiter values of
                                      None \<Rightarrow> DEFAULT_DELIMITER | Some s \<Rightarrow> s)
                 in if delimiter_s \<notin> set DELIMITERS
                    then Inl (Error (''`--delimiter` must be one of: '' @ [CHR 0x22] @ '',''
                           @ [CHR 0x22] @ '', '' @ [CHR 0x22, CHR 0x09, CHR 0x22] @ '', ''
                           @ [CHR 0x22] @ ''|'' @ [CHR 0x22]))
                    else
                      (let keyFolding_s = (case v_keyFolding values of
                                             None \<Rightarrow> ''off'' | Some s \<Rightarrow> s)
                       in if keyFolding_s \<noteq> ''off'' \<and> keyFolding_s \<noteq> ''safe''
                          then Inl (Error (''`--keyFolding` must be '' @ [CHR 0x22] @ ''off''
                                 @ [CHR 0x22] @ '' or '' @ [CHR 0x22] @ ''safe'' @ [CHR 0x22]))
                          else
                            (case v_flattenDepth values of
                               None \<Rightarrow>
                                 Inr \<lparr>indent = indent_n, delimiter = delimiter_s,
                                      keyFolding = keyFolding_s, flattenDepth = None,
                                      clean = v_clean values, verbose = v_verbose values\<rparr>
                             | Some s \<Rightarrow>
                                 if nan_or_negative (parseInt s)
                                 then Inl (Error
                                   ''`--flattenDepth` must be a non-negative integer when provided'')
                                 else
                                   Inr \<lparr>indent = indent_n, delimiter = delimiter_s,
                                        keyFolding = keyFolding_s, flattenDepth = Some (parseInt s),
                                        clean = v_clean values,
                                        verbose = v_verbose values\<rparr>)))))"

definition ensureWorkspace :: "'j world \<Rightarrow> (error + unit) \<times> 'j world" where
  "ensureWorkspace w =
     (case mkdir INPUT_DIR w of
        (Inl e, w1) \<Rightarrow> (Inl e, w1)
      | (Inr _, w1) \<Rightarrow> mkdir OUTPUT_DIR w1)"

definition emptyOutputDir :: "'j world \<Rightarrow> (error + unit) \<times> 'j world" where
  "emptyOutputDir w =
     (case rm OUTPUT_DIR w of
        (Inl e, w1) \<Rightarrow> (Inl e, w1)
      | (Inr _, w1) \<Rightarrow> mkdir OUTPUT_DIR w1)"

definition isProcessableFile :: "path \<Rightarrow> 'j world \<Rightarrow> bool \<times> 'j world" where
  "isProcessableFile filePath w =
     (case stat filePath w of
        (Inr is_file, w1) \<Rightarrow> (is_file, w1)
      | (Inl e, w1) \<Rightarrow>
          (False, say WARN (''Unable to read '' @ relativeFromCwd filePath @ ''. '' @ message e) w1))"

definition summary_header :: string where
  "summary_header = [CHR 0x0A] @ ''Batch conversion summary:''"

definition logSummary :: "ConversionStats \<Rightarrow> 'j world \<Rightarrow> 'j world" where
  "logSummary stats w =
     (let w1 = say LOG summary_header w;
          w2 = say LOG (''  Processed: '' @ dec (processed stats)) w1;
          w3 = say LOG (''  Converted: '' @ dec (converted stats)) w2;
          w4 = say LOG (''  Skipped:   '' @ dec (skipped stats)) w3;
          w5 = say LOG (''  Failed:    '' @ dec (failed stats)) w4
      in if converted stats = 0
         then say WARN
                ''No files were converted. Ensure there are .json files in input_json.'' w5
         else w5)"

text \<open>
  One iteration of the loop of \<open>main\<close>, in its two parts. \<open>classify\<close> is the part up to
  the second \<open>continue\<close> (lines 48 to 62): it returns \<open>True\<close> when the entry goes on to the
  \<open>try\<close> statement. \<open>attempt\<close> is the body of the \<open>try\<close> up to \<open>writeFile\<close>, \<open>convert\<close> the
  whole \<open>try\<close>/\<open>catch\<close> (lines 64 to 85).
\<close>

text \<open>The options handed to the encoder.\<close>

definition encode_options :: "CliOptions \<Rightarrow> EncodeOptions" where
  "encode_options options =
     \<lparr>eo_delimiter = Some (delimiter options), eo_indent = indent options,
      eo_keyFolding = keyFolding options, eo_flattenDepth = flattenDepth options\<rparr>"

definition arrow :: string where
  "arrow = [CHR 0xE2, CHR 0x86, CHR 0x92]"

definition classify ::
  "CliOptions \<Rightarrow> Dirent \<Rightarrow> ConversionStats \<times> 'j world \<Rightarrow> bool \<times> ConversionStats \<times> 'j world" where
  "classify options entry sw =
     (let stats = fst sw;
          entryPath = INPUT_DIR @ [dirent_name entry]
      in case isProcessableFile entryPath (snd sw) of
           (False, w1) \<Rightarrow>
             (False, stats\<lparr>skipped := skipped stats + 1\<rparr>,
              if verbose options
              then say INFO (''Skipping '' @ relativeFromCwd entryPath
                             @ '' (not a regular file).'') w1
              else w1)
         | (True, w1) \<Rightarrow>
             (let stats1 = stats\<lparr>processed := processed stats + 1\<rparr>
              in if \<not> endsWith (toLowerCase (dirent_name entry)) ''.json''
                 then (False, stats1\<lparr>skipped := skipped stats1 + 1\<rparr>,
                       say WARN (''Skipped '' @ dirent_name entry @ '': not a .json file.'') w1)
                 else (True, stats1, w1)))"

definition attempt ::
  "(string \<Rightarrow> error + 'j) \<Rightarrow> ('j \<Rightarrow> EncodeOptions \<Rightarrow> error + string) \<Rightarrow>
   CliOptions \<Rightarrow> Dirent \<Rightarrow> 'j world \<Rightarrow> (error + path) \<times> 'j world" where
  "attempt JSON_parse encode options entry w =
     (case readFile (INPUT_DIR @ [dirent_name entry]) w of
        (Inl e, w1) \<Rightarrow> (Inl e, w1)
      | (Inr rawJson, w1) \<Rightarrow>
          (case JSON_parse rawJson of
             Inl e \<Rightarrow> (Inl e, w1)
           | Inr data \<Rightarrow>
               (case encode data (encode_options options) of
                  Inl e \<Rightarrow> (Inl e, trace (Encode data) w1)
                | Inr toonOutput \<Rightarrow>
                    (let outputPath = OUTPUT_DIR @ [parse_name (dirent_name entry) @ ''.toon'']
                     in case writeFile outputPath toonOutput (trace (Encode data) w1) of
                          (Inl e, w2) \<Rightarrow> (Inl e, w2)
                        | (Inr _, w2) \<Rightarrow> (Inr outputPath, w2)))))"

definition convert ::
  "(string \<Rightarrow> error + 'j) \<Rightarrow> ('j \<Rightarrow> EncodeOptions \<Rightarrow> error + string) \<Rightarrow>
   CliOptions \<Rightarrow> Dirent \<Rightarrow> ConversionStats \<times> 'j world \<Rightarrow> ConversionStats \<times> 'j world" where
  "convert JSON_parse encode options entry sw =
     (let stats = fst sw
      in case attempt JSON_parse encode options entry (snd sw) of
           (Inr outputPath, w1) \<Rightarrow>
             (stats\<lparr>converted := converted stats + 1\<rparr>,
              if verbose options
              then say INFO (''Converted '' @ relativeFromCwd (INPUT_DIR @ [dirent_name entry])
                             @ '' '' @ arrow @ '' '' @ relativeFromCwd outputPath) w1
              else w1)
         | (Inl e, w1) \<Rightarrow>
             (stats\<lparr>failed := failed stats + 1\<rparr>,
              say ERROR (''Failed to convert '' @ dirent_name entry @ ''. '' @ message e) w1))"

definition process_entry ::
  "(string \<Rightarrow> error + 'j) \<Rightarrow> ('j \<Rightarrow> EncodeOptions \<Rightarrow> error + string) \<Rightarrow>
   CliOptions \<Rightarrow> Dirent \<Rightarrow> ConversionStats \<times> 'j world \<Rightarrow> ConversionStats \<times> 'j world" where
  "process_entry JSON_parse encode options entry sw =
     (case classify options entry sw of
        (False, sw1) \<Rightarrow> sw1
      | (True, sw1) \<Rightarrow> convert JSON_parse encode options entry sw1)"

fun process_entries ::
  "(string \<Rightarrow> error + 'j) \<Rightarrow> ('j \<Rightarrow> EncodeOptions \<Rightarrow> error + string) \<Rightarrow>
   CliOptions \<Rightarrow> Dirent list \<Rightarrow> ConversionStats \<times> 'j world \<Rightarrow> ConversionStats \<times> 'j world" where
  "process_entries JSON_parse encode options [] sw = sw"
| "process_entries JSON_parse encode options (entry # entries) sw =
     process_entries JSON_parse encode options entries
       (process_entry JSON_parse encode options entry sw)"

definition stats0 :: ConversionStats where
  "stats0 = \<lparr>processed = 0, converted = 0, skipped = 0, failed = 0\<rparr>"

text \<open>The body of \<open>async function main\<close>: \<open>Inl\<close> is a rejected promise.\<close>

definition main_body ::
  "(string list \<Rightarrow> error + ParsedValues) \<Rightarrow> (string \<Rightarrow> error + 'j) \<Rightarrow>
   ('j \<Rightarrow> EncodeOptions \<Rightarrow> error + string) \<Rightarrow> string list \<Rightarrow> 'j world \<Rightarrow>
   (error + unit) \<times> 'j world" where
  "main_body parseArgs JSON_parse encode argv w =
     (case parseCliOptions parseArgs argv of
        Inl e \<Rightarrow> (Inl e, w)
      | Inr options \<Rightarrow>
          (case ensureWorkspace w of
             (Inl e, w1) \<Rightarrow> (Inl e, w1)
           | (Inr _, w1) \<Rightarrow>
               (case (if clean options then emptyOutputDir w1 else (Inr (), w1)) of
                  (Inl e, w2) \<Rightarrow> (Inl e, w2)
                | (Inr _, w2) \<Rightarrow>
                    (case readdir INPUT_DIR w2 of
                       (Inl e, w3) \<Rightarrow> (Inl e, w3)
                     | (Inr entries, w3) \<Rightarrow>
                         if entries = []
                         then (Inr (), say WARN (''No files found in '' @ relativeFromCwd INPUT_DIR
                                 @ ''. Add .json files and run again.'') w3)
                         else
                           (let sw = process_entries JSON_parse encode options entries (stats0, w3)
                            in (Inr (), logSummary (fst sw) (snd sw)))))))"

text \<open>
  \<open>main().catch(...)\<close>: a rejection is printed and the process exits with status 1;
  otherwise nothing sets an exit status and the process ends with status 0.
\<close>

definition main ::
  "(string list \<Rightarrow> error + ParsedValues) \<Rightarrow> (string \<Rightarrow> error + 'j) \<Rightarrow>
   ('j \<Rightarrow> EncodeOptions \<Rightarrow> error + string) \<Rightarrow> string list \<Rightarrow> 'j world \<Rightarrow>
   'j world \<times> nat" where
  "main parseArgs JSON_parse encode argv w =
     (case main_body parseArgs JSON_parse encode argv w of
        (Inl e, w1) \<Rightarrow> (say ERROR (message e) w1, 1)
      | (Inr _, w1) \<Rightarrow> (w1, 0))"

section \<open>The plain batch converter\<close>

text \<open>The source file \<open>src/scripts/convert-json-to-toon.ts\<close>. Its \<open>INPUT_DIR\<close> and
  \<open>OUTPUT_DIR\<close> are the same two directories; \<open>cwd\<close> is the text of \<open>process.cwd()\<close>, which
  this script prints in front of them.\<close>

record ConversionResult =
  success :: bool
  r_inputFile :: string
  r_outputFile :: "string option"
  r_error :: "string option"

definition absolute :: "string \<Rightarrow> path \<Rightarrow> string" where
  "absolute cwd p = join_with ''/'' (cwd # p)"

definition rocket :: string where "rocket = [CHR 0xF0, CHR 0x9F, CHR 0x9A, CHR 0x80]"
definition cross :: string where "cross = [CHR 0xE2, CHR 0x9D, CHR 0x8C]"
definition folder :: string where "folder = [CHR 0xF0, CHR 0x9F, CHR 0x93, CHR 0x81]"
definition mailbox :: string where "mailbox = [CHR 0xF0, CHR 0x9F, CHR 0x93, CHR 0xAD]"
definition open_folder :: string where "open_folder = [CHR 0xF0, CHR 0x9F, CHR 0x93, CHR 0x82]"
definition check_mark :: string where "check_mark = [CHR 0xE2, CHR 0x9C, CHR 0x85]"
definition bar_chart :: string where "bar_chart = [CHR 0xF0, CHR 0x9F, CHR 0x93, CHR 0x8A]"
definition party :: string where "party = [CHR 0xF0, CHR 0x9F, CHR 0x8E, CHR 0x89]"

definition convertJsonToToon ::
  "(string \<Rightarrow> error + 'j) \<Rightarrow> ('j \<Rightarrow> EncodeOptions \<Rightarrow> error + string) \<Rightarrow>
   path \<Rightarrow> path \<Rightarrow> 'j world \<Rightarrow> (error + unit) \<times> 'j world" where
  "convertJsonToToon JSON_parse encode inputPath outputPath w =
     (case readFile inputPath w of
        (Inl e, w1) \<Rightarrow> (Inl e, w1)
      | (Inr jsonContent, w1) \<Rightarrow>
          (case JSON_parse jsonContent of
             Inl e \<Rightarrow> (Inl (Error (''Failed to parse JSON: '' @ message e)), w1)
           | Inr data \<Rightarrow>
               (case encode data \<lparr>eo_delimiter = None, eo_indent = Num False 2,
                                  eo_keyFolding = ''off'', eo_flattenDepth = None\<rparr> of
                  Inl e \<Rightarrow> (Inl e, trace (Encode data) w1)
                | Inr toonOutput \<Rightarrow> writeFile outputPath toonOutput (trace (Encode data) w1))))"

definition getJsonFiles :: "path \<Rightarrow> 'j world \<Rightarrow> (error + path list) \<times> 'j world" where
  "getJsonFiles dir w =
     (case readdir dir w of
        (Inl e, w1) \<Rightarrow> (Inl e, w1)
      | (Inr entries, w1) \<Rightarrow>
          (Inr (map (\<lambda>entry. dir @ [dirent_name entry])
                  (filter (\<lambda>entry. dirent_isFile entry \<and> endsWith (dirent_name entry) ''.json'')
                     entries)),
           w1))"

text \<open>One iteration of the loop over \<open>jsonFiles\<close>, and the loop.\<close>

definition convert_file ::
  "(string \<Rightarrow> error + 'j) \<Rightarrow> ('j \<Rightarrow> EncodeOptions \<Rightarrow> error + string) \<Rightarrow>
   path \<Rightarrow> ConversionResult list \<times> 'j world \<Rightarrow> ConversionResult list \<times> 'j world" where
  "convert_file JSON_parse encode inputFile rw =
     (let baseName = basename inputFile ''.json'';
          outputFile_p = OUTPUT_DIR @ [baseName @ ''.toon''];
          relativeInput = join_with ''/'' inputFile;
          relativeOutput = join_with ''/'' outputFile_p
      in case convertJsonToToon JSON_parse encode inputFile outputFile_p (snd rw) of
           (Inr _, w1) \<Rightarrow>
             (fst rw @ [\<lparr>success = True, r_inputFile = relativeInput,
                         r_outputFile = Some relativeOutput, r_error = None\<rparr>],
              say LOG (''   '' @ check_mark @ '' '' @ relativeInput @ '' '' @ arrow @ '' ''
                       @ relativeOutput) w1)
         | (Inl e, w1) \<Rightarrow>
             (fst rw @ [\<lparr>success = False, r_inputFile = relativeInput,
                         r_outputFile = None, r_error = Some (message e)\<rparr>],
              say ERROR (''   '' @ cross @ '' '' @ relativeInput @ '': '' @ message e) w1))"

fun convert_files ::
  "(string \<Rightarrow> error + 'j) \<Rightarrow> ('j \<Rightarrow> EncodeOptions \<Rightarrow> error + string) \<Rightarrow>
   path list \<Rightarrow> ConversionResult list \<times> 'j world \<Rightarrow> ConversionResult list \<times> 'j world" where
  "convert_files JSON_parse encode [] rw = rw"
| "convert_files JSON_parse encode (inputFile # rest) rw =
     convert_files JSON_parse encode rest (convert_file JSON_parse encode inputFile rw)"

definition script_summary_header :: string where
  "script_summary_header = [CHR 0x0A] @ bar_chart @ '' Conversion Summary:''"

definition print_summary :: "ConversionResult list \<Rightarrow> 'j world \<Rightarrow> 'j world" where
  "print_summary results w =
     (let successCount = length (filter success results);
          failCount = length (filter (\<lambda>r. \<not> success r) results);
          w1 = say LOG script_summary_header w;
          w2 = say LOG (''   '' @ check_mark @ '' Successful: '' @ dec successCount) w1;
          w3 = (if failCount > 0
                then say LOG (''   '' @ cross @ '' Failed: '' @ dec failCount) w2 else w2)
      in say LOG ([CHR 0x0A] @ party @ '' Batch conversion complete!'') w3)"

text \<open>
  \<open>async function main\<close> of the script, in three parts: the check of the output directory
  (lines 59 to 62), everything from the call of \<open>getJsonFiles\<close> on (lines 64 to 108), and
  the body as a whole. \<open>Inl\<close> is a rejected promise, \<open>Inr (Some c)\<close> a call of
  \<open>process.exit(c)\<close>, \<open>Inr None\<close> a normal return.
\<close>

definition ensure_output_dir :: "string \<Rightarrow> 'j world \<Rightarrow> (error + unit) \<times> 'j world" where
  "ensure_output_dir cwd w =
     (case existsSync OUTPUT_DIR w of
        (True, w1) \<Rightarrow> (Inr (), w1)
      | (False, w1) \<Rightarrow>
          (case mkdir OUTPUT_DIR w1 of
             (Inl e, w2) \<Rightarrow> (Inl e, w2)
           | (Inr _, w2) \<Rightarrow>
               (Inr (), say LOG (folder @ '' Created output directory: ''
                                 @ absolute cwd OUTPUT_DIR) w2)))"

definition convert_all ::
  "(string \<Rightarrow> error + 'j) \<Rightarrow> ('j \<Rightarrow> EncodeOptions \<Rightarrow> error + string) \<Rightarrow>
   'j world \<Rightarrow> (error + nat option) \<times> 'j world" where
  "convert_all JSON_parse encode w =
     (case getJsonFiles INPUT_DIR w of
        (Inl e, w1) \<Rightarrow> (Inl e, w1)
      | (Inr jsonFiles, w1) \<Rightarrow>
          if jsonFiles = []
          then (Inr None,
                say LOG ''   Add .json files to the input_json directory and run again.''
                  (say LOG (mailbox @ '' No JSON files found in input_json directory.'') w1))
          else
            (let rw = convert_files JSON_parse encode jsonFiles
                        ([], say LOG (open_folder @ '' Found '' @ dec (length jsonFiles)
                                      @ '' JSON file(s) to convert:'' @ [CHR 0x0A]) w1)
             in (Inr (if length (filter (\<lambda>r. \<not> success r) (fst rw)) > 0
                      then Some 1 else None),
                 print_summary (fst rw) (snd rw))))"

definition script_main_body ::
  "string \<Rightarrow> (string \<Rightarrow> error + 'j) \<Rightarrow> ('j \<Rightarrow> EncodeOptions \<Rightarrow> error + string) \<Rightarrow>
   'j world \<Rightarrow> (error + nat option) \<times> 'j world" where
  "script_main_body cwd JSON_parse encode w =
     (case existsSync INPUT_DIR
             (say LOG (rocket @ '' Starting batch JSON to TOON conversion...'' @ [CHR 0x0A]) w) of
        (False, w1) \<Rightarrow>
          (Inr (Some 1),
           say LOG ''   Please create the input_json directory and add JSON files.''
             (say ERROR (cross @ '' Input directory does not exist: '' @ absolute cwd INPUT_DIR)
                w1))
      | (True, w1) \<Rightarrow>
          (case ensure_output_dir cwd w1 of
             (Inl e, w2) \<Rightarrow> (Inl e, w2)
           | (Inr _, w2) \<Rightarrow> convert_all JSON_parse encode w2))"

definition script_main ::
  "string \<Rightarrow> (string \<Rightarrow> error + 'j) \<Rightarrow> ('j \<Rightarrow> EncodeOptions \<Rightarrow> error + string) \<Rightarrow>
   'j world \<Rightarrow> 'j world \<times> nat" where
  "script_main cwd JSON_parse encode w =
     (case script_main_body cwd JSON_parse encode w of
        (Inl e, w1) \<Rightarrow> (say ERROR (cross @ '' Fatal error: '' @ message e) w1, 1)
      | (Inr (Some c), w1) \<Rightarrow> (w1, c)
      | (Inr None, w1) \<Rightarrow> (w1, 0))"

section \<open>Notions used in the statements\<close>

text \<open>The part of the tree strictly below a directory.\<close>

definition below :: "path \<Rightarrow> fs \<Rightarrow> fs" where
  "below d t = filter (\<lambda>(q, n). strict_prefix d q) t"

fun confined :: "'j op \<Rightarrow> bool" where
  "confined (Mkdir p) = (p = INPUT_DIR \<or> p = OUTPUT_DIR)"
| "confined (Rm p) = (p = OUTPUT_DIR)"
| "confined (Readdir p) = (p = INPUT_DIR)"
| "confined (Stat p) = strict_prefix INPUT_DIR p"
| "confined (ExistsSync p) = (p = INPUT_DIR \<or> p = OUTPUT_DIR)"
| "confined (ReadFile p) = strict_prefix INPUT_DIR p"
| "confined (WriteFile p c) = strict_prefix OUTPUT_DIR p"
| "confined (Encode d) = True"

text \<open>
  What the claims say about single calls. \<open>confined\<close>: reads and \<open>stat\<close> go to paths inside
  the input directory, \<open>writeFile\<close> to paths inside the output directory, \<open>rm\<close> to the output
  directory, \<open>mkdir\<close> and \<open>existsSync\<close> to the two directories themselves. \<open>admitted t\<close>
  asks more of a read: the path is a regular file of the tree \<open>t\<close> and its name ends in
  \<open>.json\<close> when put in lower case.
\<close>

definition json_file :: "fs \<Rightarrow> path \<Rightarrow> bool" where
  "json_file t p =
     (strict_prefix INPUT_DIR p \<and> is_file_node (lookup t p) \<and>
      endsWith (toLowerCase (last p)) ''.json'')"

fun admitted :: "fs \<Rightarrow> 'j op \<Rightarrow> bool" where
  "admitted t (ReadFile p) = json_file t p"
| "admitted t x = confined x"

definition new_ops :: "'j world \<Rightarrow> 'j world \<Rightarrow> 'j op list" where
  "new_ops w w' = drop (length (ops w)) (ops w')"

text \<open>
  \<open>frame_ok w w'\<close>: going from \<open>w\<close> to \<open>w'\<close> left everything below the input directory as it
  was, and only added calls to the trace, each of them admitted.
\<close>

definition frame_ok :: "'j world \<Rightarrow> 'j world \<Rightarrow> bool" where
  "frame_ok w w' =
     (below INPUT_DIR (files w') = below INPUT_DIR (files w) \<and>
      take (length (ops w)) (ops w') = ops w \<and>
      list_all (admitted (files w)) (new_ops w w'))"

text \<open>The two tests of the loop on an entry: it is a regular file of the tree; its name ends
  in \<open>.json\<close>, whatever the case of the letters.\<close>

definition regular :: "fs \<Rightarrow> Dirent \<Rightarrow> bool" where
  "regular t entry = is_file_node (lookup t (INPUT_DIR @ [dirent_name entry]))"

definition json_named :: "Dirent \<Rightarrow> bool" where
  "json_named entry = endsWith (toLowerCase (dirent_name entry)) ''.json''"

text \<open>The invariant the statistics are claimed to satisfy.\<close>

definition stats_inv :: "ConversionStats \<Rightarrow> bool" where
  "stats_inv s =
     (converted s + failed s \<le> processed s \<and> processed s \<le> converted s + failed s + skipped s)"

text \<open>A text that is a non-negative integer: a non-empty run of decimal digits.\<close>

definition spec_nonneg_integer :: "string \<Rightarrow> bool" where
  "spec_nonneg_integer s = (s \<noteq> [] \<and> list_all is_digit s)"

text \<open>The lines of the summary for given statistics.\<close>

definition summary_lines :: "ConversionStats \<Rightarrow> (level \<times> string) list" where
  "summary_lines stats =
     [(LOG, summary_header),
      (LOG, ''  Processed: '' @ dec (processed stats)),
      (LOG, ''  Converted: '' @ dec (converted stats)),
      (LOG, ''  Skipped:   '' @ dec (skipped stats)),
      (LOG, ''  Failed:    '' @ dec (failed stats))]
     @ (if converted stats = 0
        then [(WARN, ''No files were converted. Ensure there are .json files in input_json.'')]
        else [])"

text \<open>The warning of a run that finds the input directory empty.\<close>

definition no_files_message :: string where
  "no_files_message = ''No files found in input_json. Add .json files and run again.''"

section \<open>Sample inputs\<close>

text \<open>The raw option values of a command line without options.\<close>

definition default_values :: ParsedValues where
  "default_values = \<lparr>v_indent = None, v_delimiter = None, v_keyFolding = None,
     v_flattenDepth = None, v_clean = False, v_verbose = False\<rparr>"

text \<open>
  A reading of the argument vector that stands for \<open>util.parseArgs\<close> in the examples. It
  follows \<open>util.parseArgs\<close> on vectors made of \<open>--clean\<close>, \<open>--verbose\<close>, \<open>-v\<close>,
  \<open>--indent=<value>\<close> and \<open>--indent <value>\<close>, where a value of more than one character
  that starts with a dash is refused as ambiguous; it refuses every other argument.
\<close>

fun parseArgs_from :: "ParsedValues \<Rightarrow> string list \<Rightarrow> error + ParsedValues" where
  "parseArgs_from v [] = Inr v"
| "parseArgs_from v (a # rest) =
     (if a = ''--clean'' then parseArgs_from (v\<lparr>v_clean := True\<rparr>) rest
      else if a = ''--verbose'' \<or> a = ''-v'' then parseArgs_from (v\<lparr>v_verbose := True\<rparr>) rest
      else if prefix ''--indent='' a
           then parseArgs_from (v\<lparr>v_indent := Some (drop 9 a)\<rparr>) rest
      else if a = ''--indent''
           then (case rest of
                   [] \<Rightarrow> Inl (Error ''Option --indent <value> argument missing'')
                 | x # rest' \<Rightarrow>
                     if 1 < length x \<and> hd x = CHR ''-''
                     then Inl (Error ''Option --indent argument is ambiguous.'')
                     else parseArgs_from (v\<lparr>v_indent := Some x\<rparr>) rest')
      else Inl (Error (''Unknown option '' @ a)))"

definition parseArgs_sample :: "string list \<Rightarrow> error + ParsedValues" where
  "parseArgs_sample argv = parseArgs_from default_values argv"

text \<open>The text \<open>{"x":1}\<close>, a parser that accepts this one document (a document is its text)
  and an encoder that knows its encoding.\<close>

definition doc_x1 :: string where
  "doc_x1 = ''{'' @ [CHR 0x22] @ ''x'' @ [CHR 0x22] @ '':1}''"

definition JSON_parse_sample :: "string \<Rightarrow> error + string" where
  "JSON_parse_sample s =
     (if s = doc_x1 then Inr s else Inl (Error ''Unexpected token x in JSON at position 1''))"

definition encode_sample :: "string \<Rightarrow> EncodeOptions \<Rightarrow> error + string" where
  "encode_sample d opts =
     (if d = doc_x1 then Inr ''x: 1'' else Inl (Error ''Cannot encode this value''))"

definition world_ab :: "'j world" where
  "world_ab = \<lparr>files = [([''input_json''], Dir),
                        ([''input_json'', ''a.json''], File doc_x1),
                        ([''input_json'', ''b.json''], File ''{x:}'')],
               console = [], ops = []\<rparr>"

definition world_b :: "'j world" where
  "world_b = \<lparr>files = [([''input_json''], Dir),
                       ([''input_json'', ''b.json''], File ''{x:}'')],
              console = [], ops = []\<rparr>"

text \<open>The options of a command line without options, and the state in which the loop starts
  on the directory with \<open>a.json\<close> and \<open>b.json\<close>.\<close>

definition default_options :: CliOptions where
  "default_options = \<lparr>indent = Num False 2, delimiter = '','', keyFolding = ''off'', flattenDepth = None,
     clean = False, verbose = False\<rparr>"

definition world_ab_enumerated :: "'j world" where
  "world_ab_enumerated =
     \<lparr>files = [([''input_json''], Dir),
               ([''input_json'', ''a.json''], File doc_x1),
               ([''input_json'', ''b.json''], File ''{x:}''),
               ([''output_toon''], Dir)],
      console = [],
      ops = [Mkdir [''input_json''], Mkdir [''output_toon''], Readdir [''input_json'']]\<rparr>"

text \<open>An input directory with a subdirectory, a text file and two documents, one of them
  with its extension in capitals; an output directory with a file left by an earlier run.\<close>

definition world_mixed :: "'j world" where
  "world_mixed =
     \<lparr>files = [([''input_json''], Dir),
               ([''input_json'', ''sub''], Dir),
               ([''input_json'', ''notes.txt''], File ''hello''),
               ([''input_json'', ''a.json''], File doc_x1),
               ([''input_json'', ''DATA.JSON''], File doc_x1),
               ([''output_toon''], Dir),
               ([''output_toon'', ''stale.toon''], File ''old'')],
      console = [], ops = []\<rparr>"

definition world_empty_input :: "'j world" where
  "world_empty_input = \<lparr>files = [([''input_json''], Dir)], console = [], ops = []\<rparr>"

text \<open>An input directory whose first file does not parse and whose second file does.\<close>

definition world_bc :: "'j world" where
  "world_bc = \<lparr>files = [([''input_json''], Dir),
                        ([''input_json'', ''b.json''], File ''{x:}''),
                        ([''input_json'', ''c.json''], File doc_x1)],
               console = [], ops = []\<rparr>"

definition world_nothing :: "'j world" where
  "world_nothing = \<lparr>files = [], console = [], ops = []\<rparr>"

section \<open>The file tree\<close>



lemma lookup_update: "k \<noteq> [] \<Longrightarrow> lookup (AList.update k v t) p = (if p = k then Some v else lookup t p)"
  by (simp add: lookup_def update_conv')

lemma fs_mkdir_single:
  "fs_mkdir [d] t =
     (case lookup t [d] of None \<Rightarrow> Inr (AList.update [d] Dir t) | Some Dir \<Rightarrow> Inr t
      | Some (File c) \<Rightarrow> Inl (Error ''EEXIST: file already exists, mkdir''))"
  by (simp add: fs_mkdir_def split: option.splits node.splits)

lemma below_update: "\<not> strict_prefix d k \<Longrightarrow> below d (AList.update k v t) = below d t"
  by (induction t) (auto simp: below_def)

lemma below_rm: "(\<And>q. strict_prefix d q \<Longrightarrow> \<not> prefix p q) \<Longrightarrow> below d (fs_rm p t) = below d t"
  by (induction t) (auto simp: below_def fs_rm_def)

lemma below_rm_self: "below d (fs_rm d t) = []"
  by (induction t) (auto simp: below_def fs_rm_def)

lemma lookup_below: "strict_prefix d p \<Longrightarrow> map_of (below d t) p = lookup t p"
  by (induction t) (auto simp: below_def lookup_def)

lemma children_below: "children d (below d t) = children d t"
proof -
  have "filter (\<lambda>q. q \<noteq> [] \<and> butlast q = d) (map fst (below d t))
      = filter (\<lambda>q. q \<noteq> [] \<and> butlast q = d) (map fst t)"
  proof (induction t)
    case Nil
    show ?case by (simp add: below_def)
  next
    case (Cons a t)
    obtain q n where a: "a = (q, n)" by (cases a)
    have "q \<noteq> [] \<Longrightarrow> butlast q = d \<Longrightarrow> strict_prefix d q"
      by (metis append_butlast_last_id prefix_order.dual_order.strict_iff_order prefixI self_append_conv snoc_eq_iff_butlast)
    with Cons a show ?case by (auto simp: below_def)
  qed
  then show ?thesis by (simp add: children_def)
qed

lemma in_out_disjoint: "strict_prefix INPUT_DIR q \<Longrightarrow> \<not> prefix OUTPUT_DIR q"
  by (cases q) (auto simp: INPUT_DIR_def OUTPUT_DIR_def)

lemma not_below_single: "\<not> strict_prefix INPUT_DIR [d]" "\<not> strict_prefix OUTPUT_DIR [d]"
  by (auto simp: INPUT_DIR_def OUTPUT_DIR_def strict_prefix_def)

section \<open>Every step stays inside its frame\<close>

lemma is_file_node_simps [simp]:
  "is_file_node None = False" "is_file_node (Some Dir) = False"
  "is_file_node (Some (File c)) = True"
  by (simp_all add: is_file_node_def)

lemma in_below: "strict_prefix INPUT_DIR (INPUT_DIR @ [n])"
  by (simp add: strict_prefix_def)

lemma out_below: "strict_prefix OUTPUT_DIR (OUTPUT_DIR @ [n])"
  by (simp add: strict_prefix_def)

lemma lookup_below_eq:
  "below d t' = below d t \<Longrightarrow> strict_prefix d p \<Longrightarrow> lookup t' p = lookup t p"
  using lookup_below [of d p t'] lookup_below [of d p t] by simp

lemma json_file_below:
  assumes "below INPUT_DIR t' = below INPUT_DIR t"
  shows "json_file t' p = json_file t p"
  by (cases "strict_prefix INPUT_DIR p") (simp_all add: json_file_def lookup_below_eq [OF assms])

lemma admitted_below:
  assumes "below INPUT_DIR t' = below INPUT_DIR t"
  shows "admitted t' x = admitted t x"
  by (cases x) (simp_all add: json_file_below [OF assms])

lemma admitted_confined: "admitted t x \<Longrightarrow> confined x"
  by (cases x) (simp_all add: json_file_def)

lemma regular_below:
  assumes "below INPUT_DIR t' = below INPUT_DIR t"
  shows "regular t' e = regular t e"
  by (simp add: regular_def lookup_below_eq [OF assms in_below])

lemma dir_entries_below: "below d t' = below d t \<Longrightarrow> dir_entries d t' = dir_entries d t"
proof -
  assume b: "below d t' = below d t"
  have "children d t' = children d t"
    using children_below [of d t'] children_below [of d t] b by simp
  moreover have "lookup t' (d @ [n]) = lookup t (d @ [n])" for n
    by (rule lookup_below_eq [OF b]) (simp add: strict_prefix_def)
  ultimately show ?thesis by (simp add: dir_entries_def)
qed

lemma frame_okI:
  "below INPUT_DIR (files w') = below INPUT_DIR (files w) \<Longrightarrow> ops w' = ops w @ xs \<Longrightarrow>
   list_all (admitted (files w)) xs \<Longrightarrow> frame_ok w w'"
  by (simp add: frame_ok_def new_ops_def)

lemma frame_okD:
  "frame_ok w w' \<Longrightarrow> below INPUT_DIR (files w') = below INPUT_DIR (files w) \<and>
     ops w' = ops w @ new_ops w w' \<and> list_all (admitted (files w)) (new_ops w w')"
  unfolding frame_ok_def new_ops_def by (metis append_take_drop_id)

lemma frame_ok_below: "frame_ok w w' \<Longrightarrow> below INPUT_DIR (files w') = below INPUT_DIR (files w)"
  by (simp add: frame_ok_def)

lemma frame_ok_refl: "frame_ok w w"
  by (rule frame_okI [where xs = "[]"]) simp_all

lemma frame_ok_same: "files w' = files w \<Longrightarrow> ops w' = ops w \<Longrightarrow> frame_ok w w'"
  by (rule frame_okI [where xs = "[]"]) simp_all

lemma frame_ok_trans:
  assumes a: "frame_ok w w1" and b: "frame_ok w1 w2"
  shows "frame_ok w w2"
proof (rule frame_okI)
  from a b show "below INPUT_DIR (files w2) = below INPUT_DIR (files w)"
    by (simp add: frame_ok_below)
  from a b show "ops w2 = ops w @ (new_ops w w1 @ new_ops w1 w2)"
    by (auto dest!: frame_okD)
  have "list_all (admitted (files w)) (new_ops w1 w2)"
    using frame_okD [OF b] admitted_below [OF frame_ok_below [OF a]]
    by (auto simp: list_all_iff)
  with frame_okD [OF a] show "list_all (admitted (files w)) (new_ops w w1 @ new_ops w1 w2)"
    by simp
qed

lemma frame_say: "frame_ok w (say l m w)"
  by (rule frame_ok_same) (simp_all add: say_def)

lemma frame_say': "frame_ok w w1 \<Longrightarrow> frame_ok w (say l m w1)"
  by (erule frame_ok_trans) (rule frame_say)

lemma frame_trace: "admitted (files w) x \<Longrightarrow> frame_ok w (trace x w)"
  by (rule frame_okI [where xs = "[x]"]) (simp_all add: trace_def)

lemma frame_mkdir:
  assumes "mkdir p w = (r, w')" "p = INPUT_DIR \<or> p = OUTPUT_DIR"
  shows "frame_ok w w'"
proof (rule frame_okI [where xs = "[Mkdir p]"])
  obtain d where p: "p = [d]" using assms(2) by (auto simp: INPUT_DIR_def OUTPUT_DIR_def)
  show "below INPUT_DIR (files w') = below INPUT_DIR (files w)"
    using assms(1) unfolding p
    by (auto simp: mkdir_def fs_mkdir_single trace_def below_update not_below_single
             split: option.splits node.splits)
  show "ops w' = ops w @ [Mkdir p]"
    using assms(1) by (auto simp: mkdir_def trace_def split: sum.splits)
  show "list_all (admitted (files w)) [Mkdir p]" using assms(2) by auto
qed

lemma frame_rm:
  assumes "rm OUTPUT_DIR w = (r, w')"
  shows "frame_ok w w'"
  using assms
  by (intro frame_okI [where xs = "[Rm OUTPUT_DIR]"])
     (auto simp: rm_def trace_def below_rm in_out_disjoint)

lemma frame_stat: "stat p w = (r, w') \<Longrightarrow> strict_prefix INPUT_DIR p \<Longrightarrow> frame_ok w w'"
  by (intro frame_okI [where xs = "[Stat p]"]) (auto simp: stat_def trace_def)

lemma frame_existsSync:
  "existsSync p w = (r, w') \<Longrightarrow> p = INPUT_DIR \<or> p = OUTPUT_DIR \<Longrightarrow> frame_ok w w'"
  by (intro frame_okI [where xs = "[ExistsSync p]"]) (auto simp: existsSync_def trace_def)

lemma frame_readFile: "readFile p w = (r, w') \<Longrightarrow> json_file (files w) p \<Longrightarrow> frame_ok w w'"
  by (intro frame_okI [where xs = "[ReadFile p]"]) (auto simp: readFile_def trace_def)

lemma frame_readdir: "readdir INPUT_DIR w = (r, w') \<Longrightarrow> frame_ok w w'"
  by (intro frame_okI [where xs = "[Readdir INPUT_DIR]"]) (auto simp: readdir_def trace_def)

lemma frame_writeFile:
  assumes "writeFile p c w = (r, w')" "strict_prefix OUTPUT_DIR p"
  shows "frame_ok w w'"
proof (rule frame_okI [where xs = "[WriteFile p c]"])
  have "\<not> strict_prefix INPUT_DIR p"
    using assms(2) by (auto simp: INPUT_DIR_def OUTPUT_DIR_def strict_prefix_def prefix_def)
  then show "below INPUT_DIR (files w') = below INPUT_DIR (files w)"
    using assms(1)
    by (auto simp: writeFile_def fs_writeFile_def trace_def below_update
             split: option.splits node.splits sum.splits)
  show "ops w' = ops w @ [WriteFile p c]"
    using assms(1) by (auto simp: writeFile_def trace_def split: sum.splits)
  show "list_all (admitted (files w)) [WriteFile p c]" using assms(2) by simp
qed

lemma frame_ensureWorkspace: "ensureWorkspace w = (r, w') \<Longrightarrow> frame_ok w w'"
  by (auto simp: ensureWorkspace_def split: prod.splits sum.splits
           intro: frame_mkdir frame_ok_trans [OF frame_mkdir frame_mkdir])

lemma frame_emptyOutputDir: "emptyOutputDir w = (r, w') \<Longrightarrow> frame_ok w w'"
  by (auto simp: emptyOutputDir_def split: prod.splits sum.splits
           intro: frame_rm frame_ok_trans [OF frame_rm frame_mkdir])

subsection \<open>The loop of \<open>part_000\<close>\<close>

lemma isProcessableFile_eq:
  "isProcessableFile p w =
     (is_file_node (lookup (files w) p),
      if lookup (files w) p = None
      then say WARN (''Unable to read '' @ relativeFromCwd p @ ''. ''
                     @ ''ENOENT: no such file or directory, stat'') (trace (Stat p) w)
      else trace (Stat p) w)"
  by (simp add: isProcessableFile_def stat_def fs_stat_def split: option.splits node.splits)

lemma frame_isProcessableFile:
  "isProcessableFile (INPUT_DIR @ [n]) w = (r, w') \<Longrightarrow> frame_ok w w'"
  by (auto simp: isProcessableFile_def split: prod.splits sum.splits
           intro!: frame_say' intro: frame_stat [OF _ in_below])

lemma frame_classify:
  "classify options entry (s, w) = (b, s', w') \<Longrightarrow> frame_ok w w'"
  by (auto simp: classify_def Let_def split: prod.splits bool.splits if_splits
           intro!: frame_say' intro: frame_isProcessableFile)

lemma classify_eq:
  "classify options entry (s, w) =
     (if \<not> regular (files w) entry
      then (False, s\<lparr>skipped := skipped s + 1\<rparr>,
            if verbose options
            then say INFO (''Skipping '' @ relativeFromCwd (INPUT_DIR @ [dirent_name entry])
                           @ '' (not a regular file).'')
                   (snd (isProcessableFile (INPUT_DIR @ [dirent_name entry]) w))
            else snd (isProcessableFile (INPUT_DIR @ [dirent_name entry]) w))
      else if \<not> json_named entry
      then (False, s\<lparr>processed := processed s + 1, skipped := skipped s + 1\<rparr>,
            say WARN (''Skipped '' @ dirent_name entry @ '': not a .json file.'')
              (trace (Stat (INPUT_DIR @ [dirent_name entry])) w))
      else (True, s\<lparr>processed := processed s + 1\<rparr>,
            trace (Stat (INPUT_DIR @ [dirent_name entry])) w))"
  by (auto simp: classify_def Let_def regular_def json_named_def isProcessableFile_eq)

lemma json_file_entry:
  "regular t entry \<Longrightarrow> json_named entry \<Longrightarrow> json_file t (INPUT_DIR @ [dirent_name entry])"
  by (simp add: json_file_def regular_def json_named_def in_below)

lemma frame_attempt:
  assumes "attempt JSON_parse encode options entry w = (r, w')"
    and "regular (files w) entry" "json_named entry"
  shows "frame_ok w w'"
proof -
  have rd: "\<And>r1 w1. readFile (INPUT_DIR @ [dirent_name entry]) w = (r1, w1) \<Longrightarrow> frame_ok w w1"
    by (rule frame_readFile [OF _ json_file_entry [OF assms(2,3)]])
  have tr: "\<And>w1 d. frame_ok w w1 \<Longrightarrow> frame_ok w (trace (Encode d) w1)"
    by (erule frame_ok_trans) (simp add: frame_trace)
  have wr: "\<And>w1 n c r2 w2. frame_ok w w1 \<Longrightarrow> writeFile (OUTPUT_DIR @ [n]) c w1 = (r2, w2)
              \<Longrightarrow> frame_ok w w2"
    by (erule frame_ok_trans) (rule frame_writeFile [OF _ out_below])
  show ?thesis
    using assms(1)
    by (auto simp: attempt_def Let_def split: prod.splits sum.splits
             intro: rd tr wr)
qed

lemma frame_convert:
  "convert JSON_parse encode options entry (s, w) = (s', w') \<Longrightarrow>
   regular (files w) entry \<Longrightarrow> json_named entry \<Longrightarrow> frame_ok w w'"
  by (auto simp: convert_def Let_def split: prod.splits sum.splits if_splits
           intro!: frame_say' intro: frame_attempt)

lemma frame_process_entry:
  assumes "process_entry JSON_parse encode options entry (s, w) = (s', w')"
  shows "frame_ok w w'"
proof -
  obtain b s1 w1 where c: "classify options entry (s, w) = (b, s1, w1)"
    by (cases "classify options entry (s, w)")
  have f1: "frame_ok w w1" by (rule frame_classify [OF c])
  show ?thesis
  proof (cases b)
    case False
    with assms c f1 show ?thesis by (simp add: process_entry_def)
  next
    case True
    with c have rj: "regular (files w) entry" "json_named entry"
      and w1: "w1 = trace (Stat (INPUT_DIR @ [dirent_name entry])) w"
      by (auto simp: classify_eq split: if_splits)
    from rj(1) w1 have "regular (files w1) entry" by (simp add: trace_def)
    with assms c True rj(2) have "frame_ok w1 w'"
      by (auto simp: process_entry_def intro: frame_convert)
    with f1 show ?thesis by (rule frame_ok_trans)
  qed
qed

lemma frame_process_entries:
  "process_entries JSON_parse encode options entries (s, w) = (s', w') \<Longrightarrow> frame_ok w w'"
proof (induction entries arbitrary: s w)
  case Nil
  then show ?case by (simp add: frame_ok_refl)
next
  case (Cons entry entries)
  obtain s1 w1 where 1: "process_entry JSON_parse encode options entry (s, w) = (s1, w1)"
    by (cases "process_entry JSON_parse encode options entry (s, w)")
  with Cons.prems have "process_entries JSON_parse encode options entries (s1, w1) = (s', w')"
    by simp
  then have "frame_ok w1 w'" by (rule Cons.IH)
  with frame_process_entry [OF 1] show ?case by (rule frame_ok_trans)
qed

subsection \<open>Whole runs\<close>

lemma frame_main_body:
  assumes "main_body parseArgs JSON_parse encode argv w = (r, w')"
  shows "frame_ok w w'"
proof (cases "parseCliOptions parseArgs argv")
  case (Inl e)
  with assms show ?thesis by (simp add: main_body_def frame_ok_refl)
next
  case (Inr options)
  obtain r1 w1 where 1: "ensureWorkspace w = (r1, w1)" by (cases "ensureWorkspace w")
  have f1: "frame_ok w w1" by (rule frame_ensureWorkspace [OF 1])
  show ?thesis
  proof (cases r1)
    case (Inl e)
    with assms Inr 1 f1 show ?thesis by (simp add: main_body_def)
  next
    case r1: (Inr u)
    obtain r2 w2 where 2: "(if clean options then emptyOutputDir w1 else (Inr (), w1)) = (r2, w2)"
      by (cases "if clean options then emptyOutputDir w1 else (Inr (), w1)")
    have "frame_ok w1 w2"
      using 2 by (auto split: if_splits intro: frame_emptyOutputDir frame_ok_refl)
    with f1 have f2: "frame_ok w w2" by (rule frame_ok_trans)
    show ?thesis
    proof (cases r2)
      case (Inl e)
      with assms Inr 1 r1 2 f2 show ?thesis by (simp add: main_body_def)
    next
      case r2: (Inr u2)
      obtain r3 w3 where 3: "readdir INPUT_DIR w2 = (r3, w3)" by (cases "readdir INPUT_DIR w2")
      have f3: "frame_ok w w3" by (rule frame_ok_trans [OF f2 frame_readdir [OF 3]])
      show ?thesis
      proof (cases r3)
        case (Inl e)
        with assms Inr 1 r1 2 r2 3 f3 show ?thesis by (simp add: main_body_def)
      next
        case r3: (Inr entries)
        show ?thesis
        proof (cases "entries = []")
          case True
          with assms Inr 1 r1 2 r2 3 r3 f3 show ?thesis
            by (auto simp: main_body_def intro: frame_say')
        next
          case False
          obtain s4 w4 where 4: "process_entries JSON_parse encode options entries (stats0, w3) = (s4, w4)"
            by (cases "process_entries JSON_parse encode options entries (stats0, w3)")
          have f4: "frame_ok w w4" by (rule frame_ok_trans [OF f3 frame_process_entries [OF 4]])
          have "frame_ok w (logSummary s4 w4)"
            by (auto simp: logSummary_def Let_def intro!: frame_say' f4)
          with assms Inr 1 r1 2 r2 3 r3 False 4 show ?thesis
            by (simp add: main_body_def Let_def)
        qed
      qed
    qed
  qed
qed

lemma frame_main:
  "main parseArgs JSON_parse encode argv w = (w', c) \<Longrightarrow> frame_ok w w'"
  by (auto simp: main_def split: prod.splits sum.splits intro!: frame_say' intro: frame_main_body)

subsection \<open>The loop of the plain script\<close>

lemma frame_convertJsonToToon:
  assumes "convertJsonToToon JSON_parse encode inputPath outputPath w = (r, w')"
    and "json_file (files w) inputPath" "strict_prefix OUTPUT_DIR outputPath"
  shows "frame_ok w w'"
proof -
  have rd: "\<And>r1 w1. readFile inputPath w = (r1, w1) \<Longrightarrow> frame_ok w w1"
    by (rule frame_readFile [OF _ assms(2)])
  have tr: "\<And>w1 d. frame_ok w w1 \<Longrightarrow> frame_ok w (trace (Encode d) w1)"
    by (erule frame_ok_trans) (simp add: frame_trace)
  have wr: "\<And>w1 c r2 w2. frame_ok w w1 \<Longrightarrow> writeFile outputPath c w1 = (r2, w2)
              \<Longrightarrow> frame_ok w w2"
    by (erule frame_ok_trans) (rule frame_writeFile [OF _ assms(3)])
  show ?thesis
    using assms(1)
    by (auto simp: convertJsonToToon_def split: prod.splits sum.splits intro: rd tr wr)
qed

lemma frame_convert_file:
  assumes "convert_file JSON_parse encode inputFile (rs, w) = (rs', w')"
    and "json_file (files w) inputFile"
  shows "frame_ok w w'"
  using assms(1)
  by (auto simp: convert_file_def Let_def split: prod.splits sum.splits
           intro!: frame_say' intro: frame_convertJsonToToon [OF _ assms(2) out_below])

lemma frame_convert_files:
  "convert_files JSON_parse encode fs (rs, w) = (rs', w') \<Longrightarrow>
   list_all (json_file (files w)) fs \<Longrightarrow> frame_ok w w'"
proof (induction fs arbitrary: rs w)
  case Nil
  then show ?case by (simp add: frame_ok_refl)
next
  case (Cons f fs)
  obtain rs1 w1 where 1: "convert_file JSON_parse encode f (rs, w) = (rs1, w1)"
    by (cases "convert_file JSON_parse encode f (rs, w)")
  from Cons.prems have f1: "frame_ok w w1" by (auto intro: frame_convert_file [OF 1])
  have "json_file (files w1) = json_file (files w)"
    by (rule ext) (rule json_file_below [OF frame_ok_below [OF f1]])
  with Cons.prems have "list_all (json_file (files w1)) fs" by simp
  with Cons.prems 1 have "frame_ok w1 w'" by (auto intro: Cons.IH)
  with f1 show ?case by (rule frame_ok_trans)
qed

lemma toLowerCase_json: "endsWith n ''.json'' \<Longrightarrow> endsWith (toLowerCase n) ''.json''"
  by (auto simp: endsWith_def toLowerCase_def suffix_def lower_char_def)

lemma dir_entries_isFile:
  "entry \<in> set (dir_entries d t) \<Longrightarrow>
   dirent_isFile entry = is_file_node (lookup t (d @ [dirent_name entry]))"
  by (auto simp: dir_entries_def)

lemma getJsonFiles_paths:
  assumes "getJsonFiles INPUT_DIR w = (Inr fs, w')"
  shows "list_all (json_file (files w)) fs"
proof -
  from assms have fs: "fs = map (\<lambda>entry. INPUT_DIR @ [dirent_name entry])
                  (filter (\<lambda>entry. dirent_isFile entry \<and> endsWith (dirent_name entry) ''.json'')
                     (dir_entries INPUT_DIR (files w)))"
    by (auto simp: getJsonFiles_def readdir_def fs_readdir_def
             split: prod.splits sum.splits option.splits node.splits)
  show ?thesis
    unfolding fs
    by (auto simp: list_all_iff json_file_def in_below toLowerCase_json
             dest: dir_entries_isFile)
qed

lemma getJsonFiles_files: "getJsonFiles INPUT_DIR w = (r, w') \<Longrightarrow> files w' = files w"
  by (auto simp: getJsonFiles_def readdir_def trace_def split: prod.splits sum.splits)

lemma frame_getJsonFiles: "getJsonFiles INPUT_DIR w = (r, w') \<Longrightarrow> frame_ok w w'"
  by (auto simp: getJsonFiles_def split: prod.splits sum.splits intro: frame_readdir)

lemma frame_print_summary: "frame_ok w w1 \<Longrightarrow> frame_ok w (print_summary rs w1)"
  by (auto simp: print_summary_def Let_def intro!: frame_say')

lemma frame_ensure_output_dir: "ensure_output_dir cwd w = (r, w') \<Longrightarrow> frame_ok w w'"
proof -
  assume a: "ensure_output_dir cwd w = (r, w')"
  obtain b1 w1 where 1: "existsSync OUTPUT_DIR w = (b1, w1)" by (cases "existsSync OUTPUT_DIR w")
  have f1: "frame_ok w w1" by (rule frame_existsSync [OF 1]) simp
  obtain r2 w2 where 2: "mkdir OUTPUT_DIR w1 = (r2, w2)" by (cases "mkdir OUTPUT_DIR w1")
  have f2: "frame_ok w w2" by (rule frame_ok_trans [OF f1 frame_mkdir [OF 2]]) simp
  show ?thesis
    using a 1 2 f1 f2
    by (auto simp: ensure_output_dir_def split: bool.splits sum.splits intro!: frame_say')
qed

lemma frame_convert_all:
  assumes "convert_all JSON_parse encode w = (r, w')"
  shows "frame_ok w w'"
proof -
  obtain r1 w1 where 1: "getJsonFiles INPUT_DIR w = (r1, w1)" by (cases "getJsonFiles INPUT_DIR w")
  have f1: "frame_ok w w1" by (rule frame_getJsonFiles [OF 1])
  show ?thesis
  proof (cases r1)
    case (Inl e)
    with assms 1 f1 show ?thesis by (simp add: convert_all_def)
  next
    case r1: (Inr jsonFiles)
    show ?thesis
    proof (cases "jsonFiles = []")
      case True
      with assms 1 r1 f1 show ?thesis by (auto simp: convert_all_def intro!: frame_say')
    next
      case False
      define w2 where "w2 = say LOG (open_folder @ '' Found '' @ dec (length jsonFiles)
                                        @ '' JSON file(s) to convert:'' @ [CHR 0x0A]) w1"
      have f2: "frame_ok w w2" unfolding w2_def by (rule frame_say' [OF f1])
      obtain rs3 w3 where 3: "convert_files JSON_parse encode jsonFiles ([], w2) = (rs3, w3)"
        by (cases "convert_files JSON_parse encode jsonFiles ([], w2)")
      have "files w2 = files w" unfolding w2_def using getJsonFiles_files [OF 1]
        by (simp add: say_def)
      with getJsonFiles_paths [OF 1 [unfolded r1]] have "list_all (json_file (files w2)) jsonFiles"
        by simp
      with 3 have "frame_ok w2 w3" by (rule frame_convert_files)
      with f2 have "frame_ok w w3" by (rule frame_ok_trans)
      then have "frame_ok w (print_summary rs3 w3)" by (rule frame_print_summary)
      with assms 1 r1 False 3 [unfolded w2_def] show ?thesis
        by (simp add: convert_all_def Let_def)
    qed
  qed
qed

lemma frame_script_main_body:
  assumes "script_main_body cwd JSON_parse encode w = (r, w')"
  shows "frame_ok w w'"
proof -
  define w0 where "w0 = say LOG (rocket @ '' Starting batch JSON to TOON conversion...'' @ [CHR 0x0A]) w"
  have f0: "frame_ok w w0" unfolding w0_def by (rule frame_say)
  obtain b1 w1 where 1: "existsSync INPUT_DIR w0 = (b1, w1)" by (cases "existsSync INPUT_DIR w0")
  have f1: "frame_ok w w1" by (rule frame_ok_trans [OF f0 frame_existsSync [OF 1]]) simp
  obtain r2 w2 where 2: "ensure_output_dir cwd w1 = (r2, w2)" by (cases "ensure_output_dir cwd w1")
  have f2: "frame_ok w w2" by (rule frame_ok_trans [OF f1 frame_ensure_output_dir [OF 2]])
  have f3: "\<And>r3 w3. convert_all JSON_parse encode w2 = (r3, w3) \<Longrightarrow> frame_ok w w3"
    by (rule frame_ok_trans [OF f2 frame_convert_all])
  show ?thesis
    using assms 1 [unfolded w0_def] 2 f1 f2 f3 unfolding script_main_body_def
    by (auto split: bool.splits sum.splits intro!: frame_say')
qed

lemma frame_script_main:
  "script_main cwd JSON_parse encode w = (w', c) \<Longrightarrow> frame_ok w w'"
  by (auto simp: script_main_def split: prod.splits sum.splits option.splits
           intro!: frame_say' intro: frame_script_main_body)

section \<open>The workspace\<close>

lemma mkdir_single:
  "mkdir [d] w =
     (case lookup (files w) [d] of
        None \<Rightarrow> (Inr (), (trace (Mkdir [d]) w)\<lparr>files := AList.update [d] Dir (files w)\<rparr>)
      | Some Dir \<Rightarrow> (Inr (), (trace (Mkdir [d]) w)\<lparr>files := files w\<rparr>)
      | Some (File c) \<Rightarrow> (Inl (Error ''EEXIST: file already exists, mkdir''), trace (Mkdir [d]) w))"
  by (simp add: mkdir_def fs_mkdir_single split: option.splits node.splits)

lemma mkdir_single_ok:
  assumes "\<not> is_file_node (lookup (files w) [d])"
  shows "\<exists>w1. mkdir [d] w = (Inr (), w1) \<and> lookup (files w1) [d] = Some Dir \<and>
           (\<forall>p. p \<noteq> [d] \<longrightarrow> lookup (files w1) p = lookup (files w) p) \<and>
           (lookup (files w) [d] = Some Dir \<longrightarrow> files w1 = files w) \<and>
           console w1 = console w \<and> ops w1 = ops w @ [Mkdir [d]]"
  using assms
  by (auto simp: mkdir_single trace_def lookup_update split: option.splits node.splits)

lemma mkdir_single_fail:
  assumes "is_file_node (lookup (files w) [d])"
  shows "\<exists>e. mkdir [d] w = (Inl e, trace (Mkdir [d]) w)"
  using assms by (cases "lookup (files w) [d]") (auto simp: mkdir_single split: node.splits)

lemma in_neq_out: "INPUT_DIR \<noteq> OUTPUT_DIR"
  by (simp add: INPUT_DIR_def OUTPUT_DIR_def)

lemma ensureWorkspace_ok:
  assumes "\<not> is_file_node (lookup (files w) INPUT_DIR)"
    and "\<not> is_file_node (lookup (files w) OUTPUT_DIR)"
  shows "\<exists>w1. ensureWorkspace w = (Inr (), w1) \<and>
           lookup (files w1) INPUT_DIR = Some Dir \<and> lookup (files w1) OUTPUT_DIR = Some Dir \<and>
           (\<forall>p. p \<noteq> INPUT_DIR \<and> p \<noteq> OUTPUT_DIR \<longrightarrow> lookup (files w1) p = lookup (files w) p) \<and>
           console w1 = console w \<and> ops w1 = ops w @ [Mkdir INPUT_DIR, Mkdir OUTPUT_DIR]"
proof -
  obtain w0 where 0: "mkdir INPUT_DIR w = (Inr (), w0)" "lookup (files w0) INPUT_DIR = Some Dir"
    "\<forall>p. p \<noteq> INPUT_DIR \<longrightarrow> lookup (files w0) p = lookup (files w) p"
    "console w0 = console w" "ops w0 = ops w @ [Mkdir INPUT_DIR]"
    using mkdir_single_ok [of w "''input_json''"] assms(1) unfolding INPUT_DIR_def by blast
  from 0(3) assms(2) in_neq_out have "\<not> is_file_node (lookup (files w0) OUTPUT_DIR)"
    by metis
  then obtain w1 where 1: "mkdir OUTPUT_DIR w0 = (Inr (), w1)"
    "lookup (files w1) OUTPUT_DIR = Some Dir"
    "\<forall>p. p \<noteq> OUTPUT_DIR \<longrightarrow> lookup (files w1) p = lookup (files w0) p"
    "console w1 = console w0" "ops w1 = ops w0 @ [Mkdir OUTPUT_DIR]"
    using mkdir_single_ok [of w0 "''output_toon''"] unfolding OUTPUT_DIR_def by blast
  from 0 1 in_neq_out show ?thesis
    by (auto simp: ensureWorkspace_def)
qed

lemma lookup_rm: "q \<noteq> [] \<Longrightarrow> lookup (fs_rm p t) q = (if prefix p q then None else lookup t q)"
  by (induction t) (auto simp: fs_rm_def lookup_def)

lemma emptyOutputDir_ok:
  "\<exists>w1. emptyOutputDir w = (Inr (), w1) \<and>
     lookup (files w1) OUTPUT_DIR = Some Dir \<and> below OUTPUT_DIR (files w1) = [] \<and>
     (\<forall>p. \<not> prefix OUTPUT_DIR p \<longrightarrow> lookup (files w1) p = lookup (files w) p) \<and>
     console w1 = console w \<and> ops w1 = ops w @ [Rm OUTPUT_DIR, Mkdir OUTPUT_DIR]"
proof -
  have ne: "OUTPUT_DIR \<noteq> []" by (simp add: OUTPUT_DIR_def)
  have n: "lookup (fs_rm OUTPUT_DIR (files w)) OUTPUT_DIR = None"
    by (simp add: lookup_rm ne)
  have "lookup (AList.update OUTPUT_DIR Dir (fs_rm OUTPUT_DIR (files w))) p = lookup (files w) p"
    if "\<not> prefix OUTPUT_DIR p" for p
  proof (cases "p = []")
    case True
    then show ?thesis by (simp add: lookup_def)
  next
    case False
    moreover from that have "p \<noteq> OUTPUT_DIR" by auto
    ultimately show ?thesis using that by (simp add: lookup_update [OF ne] lookup_rm)
  qed
  moreover have "mkdir OUTPUT_DIR w0 =
     (case lookup (files w0) OUTPUT_DIR of
        None \<Rightarrow> (Inr (), (trace (Mkdir OUTPUT_DIR) w0)\<lparr>files := AList.update OUTPUT_DIR Dir (files w0)\<rparr>)
      | Some Dir \<Rightarrow> (Inr (), (trace (Mkdir OUTPUT_DIR) w0)\<lparr>files := files w0\<rparr>)
      | Some (File c) \<Rightarrow> (Inl (Error ''EEXIST: file already exists, mkdir''), trace (Mkdir OUTPUT_DIR) w0))"
    for w0 :: "'a world"
    unfolding OUTPUT_DIR_def by (rule mkdir_single)
  moreover have "\<not> strict_prefix OUTPUT_DIR OUTPUT_DIR" by simp
  ultimately show ?thesis
    using n unfolding emptyOutputDir_def rm_def
    by (simp add: trace_def lookup_update [OF ne] below_update below_rm_self)
qed

lemma readdir_dir:
  "lookup (files w) d = Some Dir \<Longrightarrow>
   readdir d w = (Inr (dir_entries d (files w)), trace (Readdir d) w)"
  by (simp add: readdir_def fs_readdir_def)

lemma relativeFromCwd_INPUT_DIR: "relativeFromCwd INPUT_DIR = ''input_json''"
  by (simp add: relativeFromCwd_def INPUT_DIR_def)

lemma main_body_run:
  assumes opts: "parseCliOptions parseArgs argv = Inr options"
    and nf: "\<not> is_file_node (lookup (files w) INPUT_DIR)"
            "\<not> is_file_node (lookup (files w) OUTPUT_DIR)"
  shows "\<exists>w3. lookup (files w3) INPUT_DIR = Some Dir \<and> lookup (files w3) OUTPUT_DIR = Some Dir \<and>
          below INPUT_DIR (files w3) = below INPUT_DIR (files w) \<and>
          (clean options \<longrightarrow> below OUTPUT_DIR (files w3) = []) \<and>
          console w3 = console w \<and>
          ops w3 = ops w @ [Mkdir INPUT_DIR, Mkdir OUTPUT_DIR]
                     @ (if clean options then [Rm OUTPUT_DIR, Mkdir OUTPUT_DIR] else [])
                     @ [Readdir INPUT_DIR] \<and>
          main_body parseArgs JSON_parse encode argv w =
            (if dir_entries INPUT_DIR (files w) = []
             then (Inr (), say WARN no_files_message w3)
             else (Inr (),
                   logSummary
                     (fst (process_entries JSON_parse encode options
                             (dir_entries INPUT_DIR (files w)) (stats0, w3)))
                     (snd (process_entries JSON_parse encode options
                             (dir_entries INPUT_DIR (files w)) (stats0, w3)))))"
proof -
  obtain w1 where 1: "ensureWorkspace w = (Inr (), w1)"
    "lookup (files w1) INPUT_DIR = Some Dir" "lookup (files w1) OUTPUT_DIR = Some Dir"
    "console w1 = console w" "ops w1 = ops w @ [Mkdir INPUT_DIR, Mkdir OUTPUT_DIR]"
    using ensureWorkspace_ok [OF nf] by blast
  have b1: "below INPUT_DIR (files w1) = below INPUT_DIR (files w)"
    by (rule frame_ok_below [OF frame_ensureWorkspace [OF 1(1)]])
  obtain w2 where 2: "(if clean options then emptyOutputDir w1 else (Inr (), w1)) = (Inr (), w2)"
    "lookup (files w2) INPUT_DIR = Some Dir" "lookup (files w2) OUTPUT_DIR = Some Dir"
    "below INPUT_DIR (files w2) = below INPUT_DIR (files w1)"
    "clean options \<longrightarrow> below OUTPUT_DIR (files w2) = []"
    "console w2 = console w1"
    "ops w2 = ops w1 @ (if clean options then [Rm OUTPUT_DIR, Mkdir OUTPUT_DIR] else [])"
  proof (cases "clean options")
    case False
    with 1 that [of w1] show ?thesis by simp
  next
    case True
    obtain w2 where e: "emptyOutputDir w1 = (Inr (), w2)"
      "lookup (files w2) OUTPUT_DIR = Some Dir" "below OUTPUT_DIR (files w2) = []"
      "\<forall>p. \<not> prefix OUTPUT_DIR p \<longrightarrow> lookup (files w2) p = lookup (files w1) p"
      "console w2 = console w1" "ops w2 = ops w1 @ [Rm OUTPUT_DIR, Mkdir OUTPUT_DIR]"
      using emptyOutputDir_ok [of w1] by blast
    have "\<not> prefix OUTPUT_DIR INPUT_DIR" by (simp add: INPUT_DIR_def OUTPUT_DIR_def)
    with e(4) 1(2) have "lookup (files w2) INPUT_DIR = Some Dir" by simp
    moreover have "below INPUT_DIR (files w2) = below INPUT_DIR (files w1)"
      by (rule frame_ok_below [OF frame_emptyOutputDir [OF e(1)]])
    ultimately show ?thesis using True e that [of w2] by simp
  qed
  define w3 where "w3 = trace (Readdir INPUT_DIR) w2"
  have rd: "readdir INPUT_DIR w2 = (Inr (dir_entries INPUT_DIR (files w2)), w3)"
    unfolding w3_def by (rule readdir_dir [OF 2(2)])
  have de: "dir_entries INPUT_DIR (files w2) = dir_entries INPUT_DIR (files w)"
    by (rule dir_entries_below) (simp add: 2(4) b1)
  have "main_body parseArgs JSON_parse encode argv w =
            (if dir_entries INPUT_DIR (files w) = []
             then (Inr (), say WARN no_files_message w3)
             else (Inr (),
                   logSummary
                     (fst (process_entries JSON_parse encode options
                             (dir_entries INPUT_DIR (files w)) (stats0, w3)))
                     (snd (process_entries JSON_parse encode options
                             (dir_entries INPUT_DIR (files w)) (stats0, w3)))))"
    using opts 1(1) 2(1) rd
    by (simp add: main_body_def de Let_def no_files_message_def relativeFromCwd_INPUT_DIR)
  moreover have "files w3 = files w2" "console w3 = console w2"
    "ops w3 = ops w2 @ [Readdir INPUT_DIR]"
    by (simp_all add: w3_def trace_def)
  ultimately show ?thesis
    using 1 2 b1 by (intro exI [of _ w3]) simp
qed

section \<open>The statistics of the loop\<close>

lemma process_entry_eq:
  "process_entry JSON_parse encode options entry (s, w) =
     (if \<not> regular (files w) entry \<or> \<not> json_named entry
      then snd (classify options entry (s, w))
      else convert JSON_parse encode options entry
             (s\<lparr>processed := processed s + 1\<rparr>, trace (Stat (INPUT_DIR @ [dirent_name entry])) w))"
  by (simp add: process_entry_def classify_eq)

lemma process_entry_stats:
  "fst (process_entry JSON_parse encode options entry (s, w)) =
     (if \<not> regular (files w) entry then s\<lparr>skipped := skipped s + 1\<rparr>
      else if \<not> json_named entry
      then s\<lparr>processed := processed s + 1, skipped := skipped s + 1\<rparr>
      else if isl (fst (attempt JSON_parse encode options entry
                          (trace (Stat (INPUT_DIR @ [dirent_name entry])) w)))
      then s\<lparr>processed := processed s + 1, failed := failed s + 1\<rparr>
      else s\<lparr>processed := processed s + 1, converted := converted s + 1\<rparr>)"
  by (auto simp: process_entry_eq classify_eq convert_def Let_def split: prod.splits sum.splits)

lemma process_entry_counts:
  assumes "process_entry JSON_parse encode options entry (s, w) = (s', w')"
  shows "processed s' = processed s + (if regular (files w) entry then 1 else 0)"
    and "skipped s' = skipped s + (if regular (files w) entry \<and> json_named entry then 0 else 1)"
    and "converted s' + failed s' =
           converted s + failed s + (if regular (files w) entry \<and> json_named entry then 1 else 0)"
    and "converted s \<le> converted s'" and "failed s \<le> failed s'"
  using process_entry_stats [of JSON_parse encode options entry s w] assms
  by (auto split: if_splits)

lemma process_entries_counts:
  assumes "process_entries JSON_parse encode options entries (s, w) = (s', w')"
  shows "processed s' = processed s + length (filter (regular (files w)) entries) \<and>
         skipped s' = skipped s + length (filter (\<lambda>e. \<not> (regular (files w) e \<and> json_named e)) entries) \<and>
         converted s' + failed s' =
           converted s + failed s
           + length (filter (\<lambda>e. regular (files w) e \<and> json_named e) entries)"
  using assms
proof (induction entries arbitrary: s w)
  case Nil
  then show ?case by simp
next
  case (Cons entry entries)
  obtain s1 w1 where 1: "process_entry JSON_parse encode options entry (s, w) = (s1, w1)"
    by (cases "process_entry JSON_parse encode options entry (s, w)")
  have r: "regular (files w1) = regular (files w)"
    by (rule ext) (rule regular_below [OF frame_ok_below [OF frame_process_entry [OF 1]]])
  from Cons.prems 1 have "process_entries JSON_parse encode options entries (s1, w1) = (s', w')"
    by simp
  from Cons.IH [OF this] process_entry_counts(1-3) [OF 1] show ?case
    by (simp add: r)
qed

lemma length_filter_split:
  "length (filter P xs) + length (filter (\<lambda>x. \<not> P x) xs) = length xs"
  by (induction xs) simp_all

lemma classify_True_bounds:
  assumes "stats_inv s" "classify options entry (s, w) = (True, s1, w1)"
  shows "converted s1 + failed s1 \<le> processed s1 \<and>
         processed s1 \<le> converted s1 + failed s1 + skipped s1 + 1"
  using assms by (auto simp: classify_eq stats_inv_def split: if_splits)

lemma length_filter_not_both:
  "length (filter (\<lambda>e. \<not> (P e \<and> Q e)) xs) =
   length (filter (\<lambda>e. \<not> P e) xs) + length (filter (\<lambda>e. P e \<and> \<not> Q e) xs)"
  by (induction xs) auto

lemma attempt_fail:
  assumes "lookup (files w) (INPUT_DIR @ [dirent_name entry]) = Some (File raw)"
    and "JSON_parse raw = Inl e \<or>
         (\<exists>d. JSON_parse raw = Inr d \<and> encode d (encode_options options) = Inl e)"
  shows "\<exists>w'. attempt JSON_parse encode options entry w = (Inl e, w') \<and>
           files w' = files w \<and> console w' = console w"
  using assms
  by (auto simp: attempt_def readFile_def fs_readFile_def trace_def)

lemma process_entry_fail:
  assumes reg: "lookup (files w) (INPUT_DIR @ [dirent_name entry]) = Some (File raw)"
    and json: "json_named entry"
    and fail: "JSON_parse raw = Inl e \<or>
         (\<exists>d. JSON_parse raw = Inr d \<and> encode d (encode_options options) = Inl e)"
  shows "\<exists>w'. process_entry JSON_parse encode options entry (s, w) =
                (s\<lparr>processed := processed s + 1, failed := failed s + 1\<rparr>, w') \<and>
              console w' = console w @ [(ERROR, ''Failed to convert '' @ dirent_name entry
                                                @ ''. '' @ message e)] \<and>
              files w' = files w"
proof -
  let ?w1 = "trace (Stat (INPUT_DIR @ [dirent_name entry])) w"
  have r: "regular (files w) entry" using reg by (simp add: regular_def)
  have "lookup (files ?w1) (INPUT_DIR @ [dirent_name entry]) = Some (File raw)"
    using reg by (simp add: trace_def)
  from attempt_fail [where JSON_parse = JSON_parse and encode = encode, OF this fail]
  obtain w2 where a: "attempt JSON_parse encode options entry ?w1 = (Inl e, w2)"
    "files w2 = files ?w1" "console w2 = console ?w1" by blast
  show ?thesis
    using r json a
    by (simp add: process_entry_eq convert_def say_def trace_def)
qed

lemma process_entries_total:
  assumes "process_entries JSON_parse encode options entries (s, w) = (s', w')"
  shows "converted s' + skipped s' + failed s' =
         converted s + skipped s + failed s + length entries"
proof -
  from process_entries_counts [OF assms]
  have "skipped s' = skipped s
          + length (filter (\<lambda>e. \<not> (regular (files w) e \<and> json_named e)) entries)"
    and "converted s' + failed s' = converted s + failed s
          + length (filter (\<lambda>e. regular (files w) e \<and> json_named e) entries)"
    by simp_all
  with length_filter_split [of "\<lambda>e. regular (files w) e \<and> json_named e" entries]
  show ?thesis by simp
qed

lemma process_entry_skip:
  assumes "\<not> regular (files w) entry \<or> \<not> json_named entry"
  shows "\<exists>w'. process_entry JSON_parse encode options entry (s, w) =
           (s\<lparr>processed := processed s + (if regular (files w) entry then 1 else 0),
              skipped := skipped s + 1\<rparr>, w') \<and>
           new_ops w w' = [Stat (INPUT_DIR @ [dirent_name entry])] \<and> files w' = files w"
  using assms
  by (auto simp: process_entry_eq classify_eq isProcessableFile_eq new_ops_def trace_def say_def)


section \<open>An empty input directory\<close>

lemma main_empty:
  assumes "parseCliOptions parseArgs argv = Inr options"
    and "\<not> is_file_node (lookup (files w) INPUT_DIR)"
    and "\<not> is_file_node (lookup (files w) OUTPUT_DIR)"
    and "dir_entries INPUT_DIR (files w) = []"
  shows "snd (main parseArgs JSON_parse encode argv w) = 0 \<and>
         console (fst (main parseArgs JSON_parse encode argv w))
           = console w @ [(WARN, no_files_message)]"
proof -
  from main_body_run [OF assms(1-3), of JSON_parse encode] assms(4)
  obtain w3 where "console w3 = console w"
    "main_body parseArgs JSON_parse encode argv w = (Inr (), say WARN no_files_message w3)"
    by auto
  then show ?thesis by (simp add: main_def say_def)
qed

lemma ensure_output_dir_eq:
  "ensure_output_dir cwd w =
     (case lookup (files w) OUTPUT_DIR of
        None \<Rightarrow>
          (Inr (), say LOG (folder @ '' Created output directory: '' @ absolute cwd OUTPUT_DIR)
                     ((trace (Mkdir OUTPUT_DIR) (trace (ExistsSync OUTPUT_DIR) w))
                        \<lparr>files := AList.update OUTPUT_DIR Dir (files w)\<rparr>))
      | Some n \<Rightarrow> (Inr (), trace (ExistsSync OUTPUT_DIR) w))"
proof -
  have m: "mkdir OUTPUT_DIR w0 =
     (case lookup (files w0) OUTPUT_DIR of
        None \<Rightarrow> (Inr (), (trace (Mkdir OUTPUT_DIR) w0)\<lparr>files := AList.update OUTPUT_DIR Dir (files w0)\<rparr>)
      | Some Dir \<Rightarrow> (Inr (), (trace (Mkdir OUTPUT_DIR) w0)\<lparr>files := files w0\<rparr>)
      | Some (File c) \<Rightarrow> (Inl (Error ''EEXIST: file already exists, mkdir''), trace (Mkdir OUTPUT_DIR) w0))"
    for w0 :: "'a world"
    unfolding OUTPUT_DIR_def by (rule mkdir_single)
  show ?thesis
    by (cases "lookup (files w) OUTPUT_DIR")
       (simp_all add: ensure_output_dir_def existsSync_def m trace_def)
qed

lemma script_main_empty:
  assumes "lookup (files w) INPUT_DIR = Some Dir"
    and "dir_entries INPUT_DIR (files w) = []"
  shows "snd (script_main cwd JSON_parse encode w) = 0 \<and>
         console (fst (script_main cwd JSON_parse encode w))
           = console w
             @ [(LOG, rocket @ '' Starting batch JSON to TOON conversion...'' @ [CHR 0x0A])]
             @ (if lookup (files w) OUTPUT_DIR = None
                then [(LOG, folder @ '' Created output directory: '' @ absolute cwd OUTPUT_DIR)]
                else [])
             @ [(LOG, mailbox @ '' No JSON files found in input_json directory.''),
                (LOG, ''   Add .json files to the input_json directory and run again.'')]"
proof -
  define w0 where "w0 = say LOG (rocket @ '' Starting batch JSON to TOON conversion...'' @ [CHR 0x0A]) w"
  define w1 where "w1 = trace (ExistsSync INPUT_DIR) w0"
  have e1: "existsSync INPUT_DIR w0 = (True, w1)"
    using assms(1) by (simp add: existsSync_def w0_def w1_def say_def)
  have f1: "files w1 = files w" "console w1 = console w @ [(LOG, rocket @ '' Starting batch JSON to TOON conversion...'' @ [CHR 0x0A])]"
    by (simp_all add: w1_def w0_def say_def trace_def)
  obtain w2 where e2: "ensure_output_dir cwd w1 = (Inr (), w2)"
    by (cases "lookup (files w1) OUTPUT_DIR") (auto simp: ensure_output_dir_eq)
  have c2: "console w2 = console w1 @ (if lookup (files w) OUTPUT_DIR = None
                then [(LOG, folder @ '' Created output directory: '' @ absolute cwd OUTPUT_DIR)]
                else [])"
    using e2 f1(1)
    by (cases "lookup (files w) OUTPUT_DIR") (auto simp: ensure_output_dir_eq say_def trace_def)
  have ne: "OUTPUT_DIR \<noteq> []" by (simp add: OUTPUT_DIR_def)
  have i2: "lookup (files w2) INPUT_DIR = Some Dir"
    using e2 f1(1) assms(1) in_neq_out
    by (cases "lookup (files w) OUTPUT_DIR")
       (auto simp: ensure_output_dir_eq say_def trace_def lookup_update [OF ne])
  have b2: "below INPUT_DIR (files w2) = below INPUT_DIR (files w1)"
    by (rule frame_ok_below [OF frame_ensure_output_dir [OF e2]])
  have d2: "dir_entries INPUT_DIR (files w2) = []"
    using dir_entries_below [OF b2] assms(2) f1(1) by simp
  have g: "getJsonFiles INPUT_DIR w2 = (Inr [], trace (Readdir INPUT_DIR) w2)"
    by (simp add: getJsonFiles_def readdir_dir [OF i2] d2)
  have "script_main_body cwd JSON_parse encode w =
          (Inr None,
           say LOG ''   Add .json files to the input_json directory and run again.''
             (say LOG (mailbox @ '' No JSON files found in input_json directory.'')
                (trace (Readdir INPUT_DIR) w2)))"
    using e1 [unfolded w0_def] e2 g
    by (simp add: script_main_body_def convert_all_def)
  then show ?thesis
    by (simp add: script_main_def say_def trace_def c2 f1)
qed

lemma parseCliOptions_sample_default: "parseCliOptions parseArgs_sample [] = Inr default_options"
  by (simp add: parseCliOptions_def parseArgs_sample_def default_values_def default_options_def
        nan_or_negative_def DELIMITERS_def DEFAULT_DELIMITER_def)

section \<open>What a run leaves in the output directory\<close>

lemma lookup_update_present:
  "k \<noteq> [] \<Longrightarrow> lookup (AList.update k v t) p \<noteq> None \<Longrightarrow> p = k \<or> lookup t p \<noteq> None"
  by (simp add: lookup_update split: if_splits)

lemma writeFile_present:
  assumes "writeFile p c w = (r, w')" "p \<noteq> []" "lookup (files w') q \<noteq> None"
  shows "q = p \<or> lookup (files w) q \<noteq> None"
proof (cases "fs_writeFile p c (files w)")
  case (Inl e)
  with assms show ?thesis by (auto simp: writeFile_def trace_def)
next
  case (Inr t)
  then have "t = AList.update p (File c) (files w)"
    by (auto simp: fs_writeFile_def split: option.splits node.splits)
  with Inr assms(1,3) lookup_update_present [OF assms(2), of "File c" "files w" q]
  show ?thesis by (auto simp: writeFile_def trace_def)
qed

lemma attempt_present:
  assumes "attempt JSON_parse encode options entry w = (r, w')"
    and "lookup (files w') p \<noteq> None"
  shows "p = OUTPUT_DIR @ [parse_name (dirent_name entry) @ ''.toon''] \<or> lookup (files w) p \<noteq> None"
proof -
  have wr: "\<And>d c r2 w2. writeFile (OUTPUT_DIR @ [parse_name (dirent_name entry) @ ''.toon'']) c
                (trace (Encode d) (trace (ReadFile (INPUT_DIR @ [dirent_name entry])) w)) = (r2, w2)
             \<Longrightarrow> lookup (files w2) p \<noteq> None
             \<Longrightarrow> p = OUTPUT_DIR @ [parse_name (dirent_name entry) @ ''.toon'']
                 \<or> lookup (files w) p \<noteq> None"
    by (drule writeFile_present [where q = p]) (auto simp: trace_def)
  show ?thesis
    using assms
    by (auto simp: attempt_def readFile_def Let_def split: prod.splits sum.splits dest: wr)
       (auto simp: trace_def)
qed

lemma process_entry_present:
  assumes "process_entry JSON_parse encode options entry (s, w) = (s', w')"
    and "lookup (files w') p \<noteq> None"
  shows "p = OUTPUT_DIR @ [parse_name (dirent_name entry) @ ''.toon''] \<or> lookup (files w) p \<noteq> None"
proof (cases "\<not> regular (files w) entry \<or> \<not> json_named entry")
  case True
  from process_entry_skip [OF True, of JSON_parse encode options s] assms show ?thesis by auto
next
  case False
  let ?w1 = "trace (Stat (INPUT_DIR @ [dirent_name entry])) w"
  obtain r w2 where a: "attempt JSON_parse encode options entry ?w1 = (r, w2)"
    by (cases "attempt JSON_parse encode options entry ?w1")
  from False assms(1) a have "files w' = files w2"
    by (auto simp: process_entry_eq convert_def say_def Let_def split: sum.splits if_splits)
  with attempt_present [OF a, of p] assms(2) show ?thesis by (simp add: trace_def)
qed

lemma process_entries_present:
  assumes "process_entries JSON_parse encode options entries (s, w) = (s', w')"
    and "lookup (files w') p \<noteq> None"
  shows "(\<exists>entry \<in> set entries. p = OUTPUT_DIR @ [parse_name (dirent_name entry) @ ''.toon''])
         \<or> lookup (files w) p \<noteq> None"
  using assms
proof (induction entries arbitrary: s w)
  case Nil
  then show ?case by simp
next
  case (Cons entry entries)
  obtain s1 w1 where 1: "process_entry JSON_parse encode options entry (s, w) = (s1, w1)"
    by (cases "process_entry JSON_parse encode options entry (s, w)")
  with Cons.prems have "process_entries JSON_parse encode options entries (s1, w1) = (s', w')"
    by simp
  from Cons.IH [OF this Cons.prems(2)] process_entry_present [OF 1, of p] show ?case by auto
qed

lemma logSummary_files_ops: "files (logSummary s w) = files w" "ops (logSummary s w) = ops w"
  by (simp_all add: logSummary_def Let_def say_def)

lemma below_empty_lookup:
  "below d t = [] \<Longrightarrow> strict_prefix d p \<Longrightarrow> lookup t p = None"
  using lookup_below [of d p t] by simp

lemma main_clean:
  assumes opts: "parseCliOptions parseArgs argv = Inr options" and cl: "clean options"
    and nf: "\<not> is_file_node (lookup (files w) INPUT_DIR)"
            "\<not> is_file_node (lookup (files w) OUTPUT_DIR)"
  shows "take 5 (new_ops w (fst (main parseArgs JSON_parse encode argv w)))
           = [Mkdir INPUT_DIR, Mkdir OUTPUT_DIR, Rm OUTPUT_DIR, Mkdir OUTPUT_DIR, Readdir INPUT_DIR]"
    and "strict_prefix OUTPUT_DIR p \<Longrightarrow>
         lookup (files (fst (main parseArgs JSON_parse encode argv w))) p \<noteq> None \<Longrightarrow>
         \<exists>entry \<in> set (dir_entries INPUT_DIR (files w)).
           p = OUTPUT_DIR @ [parse_name (dirent_name entry) @ ''.toon'']"
proof -
  let ?es = "dir_entries INPUT_DIR (files w)"
  from main_body_run [OF opts nf, of JSON_parse encode] cl
  obtain w3 where 3: "below OUTPUT_DIR (files w3) = []"
    "ops w3 = ops w @ [Mkdir INPUT_DIR, Mkdir OUTPUT_DIR, Rm OUTPUT_DIR, Mkdir OUTPUT_DIR,
                       Readdir INPUT_DIR]"
    "main_body parseArgs JSON_parse encode argv w =
            (if ?es = [] then (Inr (), say WARN no_files_message w3)
             else (Inr (),
                   logSummary (fst (process_entries JSON_parse encode options ?es (stats0, w3)))
                     (snd (process_entries JSON_parse encode options ?es (stats0, w3)))))"
    by auto
  obtain s4 w4 where 4: "process_entries JSON_parse encode options ?es (stats0, w3) = (s4, w4)"
    by (cases "process_entries JSON_parse encode options ?es (stats0, w3)")
  have o4: "ops w4 = ops w3 @ new_ops w3 w4"
    using frame_okD [OF frame_process_entries [OF 4]] by simp
  define w' where "w' = fst (main parseArgs JSON_parse encode argv w)"
  have w': "w' = (if ?es = [] then say WARN no_files_message w3 else logSummary s4 w4)"
    unfolding w'_def using 3(3) 4 by (simp add: main_def)
  have "ops w' = ops w @ [Mkdir INPUT_DIR, Mkdir OUTPUT_DIR, Rm OUTPUT_DIR, Mkdir OUTPUT_DIR,
                       Readdir INPUT_DIR] @ (if ?es = [] then [] else new_ops w3 w4)"
    using 3(2) o4 by (simp add: w' say_def logSummary_files_ops)
  then show "take 5 (new_ops w (fst (main parseArgs JSON_parse encode argv w)))
           = [Mkdir INPUT_DIR, Mkdir OUTPUT_DIR, Rm OUTPUT_DIR, Mkdir OUTPUT_DIR, Readdir INPUT_DIR]"
    unfolding w'_def [symmetric] by (simp add: new_ops_def)
  assume p: "strict_prefix OUTPUT_DIR p"
    and l: "lookup (files (fst (main parseArgs JSON_parse encode argv w))) p \<noteq> None"
  have n3: "lookup (files w3) p = None" by (rule below_empty_lookup [OF 3(1) p])
  show "\<exists>entry \<in> set ?es. p = OUTPUT_DIR @ [parse_name (dirent_name entry) @ ''.toon'']"
  proof (cases "?es = []")
    case True
    with l n3 show ?thesis unfolding w'_def [symmetric] by (simp add: w' say_def)
  next
    case False
    with l have "lookup (files w4) p \<noteq> None"
      unfolding w'_def [symmetric] by (simp add: w' logSummary_files_ops)
    from process_entries_present [OF 4 this] n3 show ?thesis by simp
  qed
qed

section \<open>Directories before enumeration\<close>

lemma main_options_fail:
  "parseCliOptions parseArgs argv = Inl e \<Longrightarrow>
   main parseArgs JSON_parse encode argv w = (say ERROR (message e) w, 1)"
  by (simp add: main_def main_body_def)



section \<open>The indentation option\<close>

lemmas parseInt_defs = parseInt_def Let_def trim_start.simps white_space_length_def
  white_space_def is_digit_def digits_value_def to_double_def bit_length.simps

lemma parseInt_examples:
  "parseInt ''3abc'' = Num False 3"
  "parseInt ''2.5'' = Num False 2"
  "parseInt ''-1'' = Num True 1"
  "parseInt ''abc'' = NaN"
  "parseInt ''9007199254740993'' = Num False 9007199254740992"
  "parseInt ([CHR 0xC2, CHR 0xA0] @ ''3'') = Num False 3"
  by (simp_all add: parseInt_defs)

section \<open>What happens to every entry of a run\<close>

lemma attempt_console:
  "attempt JSON_parse encode options entry w = (r, w') \<Longrightarrow> console w' = console w"
  by (auto simp: attempt_def readFile_def writeFile_def trace_def Let_def
           split: prod.splits sum.splits)

lemma process_entry_console:
  assumes "process_entry JSON_parse encode options entry (s, w) = (s', w')"
  shows "\<exists>ls. console w' = console w @ ls"
proof (cases "\<not> regular (files w) entry \<or> \<not> json_named entry")
  case True
  with assms show ?thesis
    by (auto simp: process_entry_eq classify_eq isProcessableFile_eq say_def trace_def
             split: if_splits)
next
  case False
  let ?w1 = "trace (Stat (INPUT_DIR @ [dirent_name entry])) w"
  obtain r w2 where a: "attempt JSON_parse encode options entry ?w1 = (r, w2)"
    by (cases "attempt JSON_parse encode options entry ?w1")
  from attempt_console [OF a] have "console w2 = console w" by (simp add: trace_def)
  with False assms a show ?thesis
    by (auto simp: process_entry_eq convert_def Let_def say_def split: sum.splits if_splits)
qed

lemma process_entries_console:
  "process_entries JSON_parse encode options entries (s, w) = (s', w') \<Longrightarrow>
   \<exists>ls. console w' = console w @ ls"
proof (induction entries arbitrary: s w)
  case Nil
  then show ?case by simp
next
  case (Cons entry entries)
  obtain s1 w1 where 1: "process_entry JSON_parse encode options entry (s, w) = (s1, w1)"
    by (cases "process_entry JSON_parse encode options entry (s, w)")
  with Cons.prems have "process_entries JSON_parse encode options entries (s1, w1) = (s', w')"
    by simp
  from Cons.IH [OF this] process_entry_console [OF 1] show ?case by auto
qed

lemma process_entries_ops:
  "process_entries JSON_parse encode options entries (s, w) = (s', w') \<Longrightarrow>
   \<exists>xs. ops w' = ops w @ xs"
  using frame_okD [OF frame_process_entries] by blast

lemma process_entries_failed_mono:
  "process_entries JSON_parse encode options entries (s, w) = (s', w') \<Longrightarrow> failed s \<le> failed s'"
proof (induction entries arbitrary: s w)
  case Nil
  then show ?case by simp
next
  case (Cons entry entries)
  obtain s1 w1 where 1: "process_entry JSON_parse encode options entry (s, w) = (s1, w1)"
    by (cases "process_entry JSON_parse encode options entry (s, w)")
  with Cons.prems have "process_entries JSON_parse encode options entries (s1, w1) = (s', w')"
    by simp
  from Cons.IH [OF this] process_entry_counts(5) [OF 1] show ?case by simp
qed

lemma process_entry_good:
  assumes "lookup (files w) (INPUT_DIR @ [dirent_name entry]) = Some (File raw)"
    and "json_named entry"
    and "JSON_parse raw = Inr d" and "encode d (encode_options options) = Inr toon"
  shows "\<exists>s' w'. process_entry JSON_parse encode options entry (s, w) = (s', w') \<and>
           ops w' = ops w @ [Stat (INPUT_DIR @ [dirent_name entry]),
                             ReadFile (INPUT_DIR @ [dirent_name entry]), Encode d,
                             WriteFile (OUTPUT_DIR @ [parse_name (dirent_name entry) @ ''.toon''])
                               toon]"
proof -
  have r: "regular (files w) entry" using assms(1) by (simp add: regular_def)
  show ?thesis
    using r assms
    by (auto simp: process_entry_eq convert_def attempt_def readFile_def fs_readFile_def
          writeFile_def trace_def say_def Let_def split: sum.splits)
qed

lemma process_entries_fail_member:
  assumes "entry \<in> set entries"
    and "lookup (files w) (INPUT_DIR @ [dirent_name entry]) = Some (File raw)"
    and "json_named entry"
    and "JSON_parse raw = Inl e \<or>
         (\<exists>d. JSON_parse raw = Inr d \<and> encode d (encode_options options) = Inl e)"
    and "process_entries JSON_parse encode options entries (s, w) = (s', w')"
  shows "(\<exists>pre post. console w' = console w @ pre
            @ (ERROR, ''Failed to convert '' @ dirent_name entry @ ''. '' @ message e) # post) \<and>
         failed s < failed s'"
  using assms(1,2,5)
proof (induction entries arbitrary: s w)
  case Nil
  then show ?case by simp
next
  case (Cons x xs)
  let ?line = "(ERROR, ''Failed to convert '' @ dirent_name entry @ ''. '' @ message e)"
  obtain s1 w1 where 1: "process_entry JSON_parse encode options x (s, w) = (s1, w1)"
    by (cases "process_entry JSON_parse encode options x (s, w)")
  with Cons.prems have 2: "process_entries JSON_parse encode options xs (s1, w1) = (s', w')"
    by simp
  show ?case
  proof (cases "x = entry")
    case True
    from process_entry_fail [where JSON_parse = JSON_parse and encode = encode,
           OF Cons.prems(2) assms(3,4), of s] 1 True
    have c1: "console w1 = console w @ [?line]" and f1: "failed s1 = failed s + 1"
      by auto
    from process_entries_console [OF 2] obtain ls where "console w' = console w1 @ ls" by blast
    with c1 have "console w' = console w @ [] @ ?line # ls" by simp
    moreover from process_entries_failed_mono [OF 2] f1 have "failed s < failed s'" by simp
    ultimately show ?thesis by blast
  next
    case False
    with Cons.prems have m: "entry \<in> set xs" by simp
    have "lookup (files w1) (INPUT_DIR @ [dirent_name entry])
            = lookup (files w) (INPUT_DIR @ [dirent_name entry])"
      by (rule lookup_below_eq [OF frame_ok_below [OF frame_process_entry [OF 1]] in_below])
    with Cons.prems have l: "lookup (files w1) (INPUT_DIR @ [dirent_name entry]) = Some (File raw)"
      by simp
    from Cons.IH [OF m l 2] obtain pre post
      where c: "console w' = console w1 @ pre @ ?line # post" and f: "failed s1 < failed s'"
      by blast
    from process_entry_console [OF 1] obtain ls where "console w1 = console w @ ls" by blast
    with c have "console w' = console w @ (ls @ pre) @ ?line # post" by simp
    moreover from f process_entry_counts(5) [OF 1] have "failed s < failed s'" by simp
    ultimately show ?thesis by blast
  qed
qed

lemma process_entries_good_member:
  assumes "entry \<in> set entries"
    and "lookup (files w) (INPUT_DIR @ [dirent_name entry]) = Some (File raw)"
    and "json_named entry"
    and "JSON_parse raw = Inr d" and "encode d (encode_options options) = Inr toon"
    and "process_entries JSON_parse encode options entries (s, w) = (s', w')"
  shows "\<exists>pre post. ops w' = ops w @ pre
           @ [ReadFile (INPUT_DIR @ [dirent_name entry]), Encode d,
              WriteFile (OUTPUT_DIR @ [parse_name (dirent_name entry) @ ''.toon'']) toon] @ post"
  using assms(1,2,6)
proof (induction entries arbitrary: s w)
  case Nil
  then show ?case by simp
next
  case (Cons x xs)
  let ?three = "[ReadFile (INPUT_DIR @ [dirent_name entry]), Encode d,
              WriteFile (OUTPUT_DIR @ [parse_name (dirent_name entry) @ ''.toon'']) toon]"
  obtain s1 w1 where 1: "process_entry JSON_parse encode options x (s, w) = (s1, w1)"
    by (cases "process_entry JSON_parse encode options x (s, w)")
  with Cons.prems have 2: "process_entries JSON_parse encode options xs (s1, w1) = (s', w')"
    by simp
  show ?case
  proof (cases "x = entry")
    case True
    from process_entry_good [where JSON_parse = JSON_parse and encode = encode,
           OF Cons.prems(2) assms(3,4,5), of s] 1 True
    have o1: "ops w1 = ops w @ [Stat (INPUT_DIR @ [dirent_name entry])] @ ?three"
      by auto
    from process_entries_ops [OF 2] obtain ys where "ops w' = ops w1 @ ys" by blast
    with o1 have "ops w' = ops w @ [Stat (INPUT_DIR @ [dirent_name entry])] @ ?three @ ys"
      by simp
    then show ?thesis by blast
  next
    case False
    with Cons.prems have m: "entry \<in> set xs" by simp
    have "lookup (files w1) (INPUT_DIR @ [dirent_name entry])
            = lookup (files w) (INPUT_DIR @ [dirent_name entry])"
      by (rule lookup_below_eq [OF frame_ok_below [OF frame_process_entry [OF 1]] in_below])
    with Cons.prems have l: "lookup (files w1) (INPUT_DIR @ [dirent_name entry]) = Some (File raw)"
      by simp
    from Cons.IH [OF m l 2] obtain pre post
      where c: "ops w' = ops w1 @ pre @ ?three @ post"
      by blast
    from frame_okD [OF frame_process_entry [OF 1]] obtain ys where "ops w1 = ops w @ ys" by blast
    with c have "ops w' = ops w @ (ys @ pre) @ ?three @ post" by simp
    then show ?thesis by blast
  qed
qed

lemma logSummary_console_eq: "console (logSummary s w) = console w @ summary_lines s"
  by (simp add: logSummary_def summary_lines_def Let_def say_def)

lemma main_run:
  assumes opts: "parseCliOptions parseArgs argv = Inr options"
    and nf: "\<not> is_file_node (lookup (files w) INPUT_DIR)"
            "\<not> is_file_node (lookup (files w) OUTPUT_DIR)"
    and ne: "dir_entries INPUT_DIR (files w) \<noteq> []"
  shows "\<exists>w3 s4 w4.
           console w3 = console w \<and>
           ops w3 = ops w @ [Mkdir INPUT_DIR, Mkdir OUTPUT_DIR]
                      @ (if clean options then [Rm OUTPUT_DIR, Mkdir OUTPUT_DIR] else [])
                      @ [Readdir INPUT_DIR] \<and>
           below INPUT_DIR (files w3) = below INPUT_DIR (files w) \<and>
           lookup (files w3) INPUT_DIR = Some Dir \<and> lookup (files w3) OUTPUT_DIR = Some Dir \<and>
           process_entries JSON_parse encode options (dir_entries INPUT_DIR (files w)) (stats0, w3)
             = (s4, w4) \<and>
           main parseArgs JSON_parse encode argv w = (logSummary s4 w4, 0)"
proof -
  let ?es = "dir_entries INPUT_DIR (files w)"
  from main_body_run [OF opts nf, of JSON_parse encode] ne
  obtain w3 where 3: "console w3 = console w"
    "ops w3 = ops w @ [Mkdir INPUT_DIR, Mkdir OUTPUT_DIR]
                      @ (if clean options then [Rm OUTPUT_DIR, Mkdir OUTPUT_DIR] else [])
                      @ [Readdir INPUT_DIR]"
    "below INPUT_DIR (files w3) = below INPUT_DIR (files w)"
    "lookup (files w3) INPUT_DIR = Some Dir" "lookup (files w3) OUTPUT_DIR = Some Dir"
    "main_body parseArgs JSON_parse encode argv w =
       (Inr (), logSummary (fst (process_entries JSON_parse encode options ?es (stats0, w3)))
                  (snd (process_entries JSON_parse encode options ?es (stats0, w3))))"
    by auto
  obtain s4 w4 where 4: "process_entries JSON_parse encode options ?es (stats0, w3) = (s4, w4)"
    by (cases "process_entries JSON_parse encode options ?es (stats0, w3)")
  with 3(6) have "main parseArgs JSON_parse encode argv w = (logSummary s4 w4, 0)"
    by (simp add: main_def)
  with 3 4 show ?thesis by blast
qed

section \<open>The two directories during a run\<close>






subsection \<open>The plain script\<close>







section \<open>Runs on the sample inputs\<close>

lemma dec_digit: "n < 10 \<Longrightarrow> dec n = [''0123456789'' ! n]"
  by (simp add: dec.simps)

lemmas run_defs = main_def main_body_def parseCliOptions_def nan_or_negative_def DELIMITERS_def
  DEFAULT_DELIMITER_def ensureWorkspace_def emptyOutputDir_def mkdir_def rm_def fs_mkdir_def
  fs_rm_def lookup_def INPUT_DIR_def OUTPUT_DIR_def trace_def say_def readdir_def fs_readdir_def
  dir_entries_def encode_options_def
  children_def is_file_node_def process_entry_def classify_def convert_def attempt_def
  isProcessableFile_def stat_def fs_stat_def readFile_def fs_readFile_def writeFile_def
  fs_writeFile_def endsWith_def toLowerCase_def lower_char_def suffix_to_prefix parse_name_def
  relativeFromCwd_def logSummary_def stats0_def default_values_def Let_def dec_digit

lemmas sample_defs = parseArgs_sample_def JSON_parse_sample_def encode_sample_def doc_x1_def
  world_ab_def world_b_def world_nothing_def

lemma main_world_b:
  assumes "parseArgs argv = Inr default_values"
    and "JSON_parse ''{x:}'' = Inl e"
  shows "main parseArgs JSON_parse encode argv world_b
         = (\<lparr>files = [([''input_json''], Dir), ([''input_json'', ''b.json''], File ''{x:}''),
                      ([''output_toon''], Dir)],
             console = [(ERROR, ''Failed to convert b.json. '' @ message e),
                        (LOG, summary_header),
                        (LOG, ''  Processed: 1''), (LOG, ''  Converted: 0''),
                        (LOG, ''  Skipped:   0''), (LOG, ''  Failed:    1''),
                        (WARN, ''No files were converted. Ensure there are .json files in input_json.'')],
             ops = [Mkdir [''input_json''], Mkdir [''output_toon''], Readdir [''input_json''],
                    Stat [''input_json'', ''b.json''], ReadFile [''input_json'', ''b.json'']]\<rparr>, 0)"
  using assms by (simp add: run_defs world_b_def)

lemma main_world_ab:
  assumes "parseArgs argv = Inr default_values"
    and "JSON_parse doc_x1 = Inr d"
    and "encode d \<lparr>eo_delimiter = Some '','', eo_indent = Num False 2, eo_keyFolding = ''off'',
                   eo_flattenDepth = None\<rparr> = Inr toon"
    and "JSON_parse ''{x:}'' = Inl e"
  shows "main parseArgs JSON_parse encode argv world_ab
         = (\<lparr>files = [([''input_json''], Dir),
                      ([''input_json'', ''a.json''], File doc_x1),
                      ([''input_json'', ''b.json''], File ''{x:}''),
                      ([''output_toon''], Dir),
                      ([''output_toon'', ''a.toon''], File toon)],
             console = [(ERROR, ''Failed to convert b.json. '' @ message e),
                        (LOG, summary_header),
                        (LOG, ''  Processed: 2''), (LOG, ''  Converted: 1''),
                        (LOG, ''  Skipped:   0''), (LOG, ''  Failed:    1'')],
             ops = [Mkdir [''input_json''], Mkdir [''output_toon''], Readdir [''input_json''],
                    Stat [''input_json'', ''a.json''], ReadFile [''input_json'', ''a.json''],
                    Encode d, WriteFile [''output_toon'', ''a.toon''] toon,
                    Stat [''input_json'', ''b.json''], ReadFile [''input_json'', ''b.json'']]\<rparr>, 0)"
proof -
  have neq: "doc_x1 \<noteq> ''{x:}''" by (simp add: doc_x1_def)
  show ?thesis
    using assms neq by (simp add: run_defs world_ab_def)
qed

lemmas script_defs = script_main_def script_main_body_def ensure_output_dir_def convert_all_def
  getJsonFiles_def existsSync_def convert_file_def convertJsonToToon_def basename_def
  print_summary_def absolute_def

lemma script_main_world_b:
  assumes "JSON_parse ''{x:}'' = Inl e"
  shows "snd (script_main cwd JSON_parse encode world_b) = 1"
    and "(LOG, script_summary_header)
           \<in> set (console (fst (script_main cwd JSON_parse encode world_b)))"
  using assms by (simp_all add: script_defs world_b_def run_defs)

section \<open>The claims\<close>

text \<open>
  C1 (the code does not do this). A run that prints the summary should end with a non-zero
  status when a conversion failed. On a directory whose only file does not parse, \<open>main\<close> of
  \<open>part_000\<close> prints the summary with one failure and ends with status 0; \<open>main\<close> of the
  plain script, on the same directory, ends with status 1.
\<close>

theorem failed_conversion_exit_status:
  assumes "parseArgs argv = Inr default_values"
    and "JSON_parse ''{x:}'' = Inl e"
  shows "snd (main parseArgs JSON_parse encode argv world_b) = 0 \<and>
         (LOG, summary_header)
           \<in> set (console (fst (main parseArgs JSON_parse encode argv world_b))) \<and>
         (LOG, ''  Failed:    1'')
           \<in> set (console (fst (main parseArgs JSON_parse encode argv world_b))) \<and>
         snd (script_main cwd JSON_parse encode world_b) = 1"
  using main_world_b [where parseArgs = parseArgs and argv = argv and JSON_parse = JSON_parse
          and encode = encode, OF assms]
    script_main_world_b(1) [where JSON_parse = JSON_parse, OF assms(2), of cwd encode]
  by simp

theorem failed_conversion_exit_status_witness:
  "parseArgs_sample [] = Inr default_values \<and>
   JSON_parse_sample ''{x:}'' = Inl (Error ''Unexpected token x in JSON at position 1'') \<and>
   snd (main parseArgs_sample JSON_parse_sample encode_sample [] world_b) = 0 \<and>
   (LOG, ''  Failed:    1'')
     \<in> set (console (fst (main parseArgs_sample JSON_parse_sample encode_sample [] world_b))) \<and>
   snd (script_main ''/work'' JSON_parse_sample encode_sample world_b) = 1"
proof -
  have a: "parseArgs_sample [] = Inr default_values"
    by (simp add: parseArgs_sample_def)
  have b: "JSON_parse_sample ''{x:}'' = Inl (Error ''Unexpected token x in JSON at position 1'')"
    by (simp add: JSON_parse_sample_def doc_x1_def)
  show ?thesis
    using a b failed_conversion_exit_status [where parseArgs = parseArgs_sample and argv = "[]"
        and JSON_parse = JSON_parse_sample and encode = encode_sample and cwd = "''/work''",
        OF a b]
    by simp
qed

text \<open>
  C2 (the code does not do this). The directory holds \<open>a.json\<close> with \<open>{"x":1}\<close> and \<open>b.json\<close>
  with \<open>{x:}\<close>, and no option is given. The run writes \<open>output_toon/a.toon\<close> with the
  encoder's output, logs the failure of \<open>b.json\<close> and reports 2 processed, 1 converted,
  0 skipped, 1 failed, as the claim says; but its exit status is 0, not non-zero.
\<close>

theorem scenario_two_files:
  assumes "parseArgs argv = Inr default_values"
    and "JSON_parse doc_x1 = Inr d"
    and "encode d \<lparr>eo_delimiter = Some '','', eo_indent = Num False 2, eo_keyFolding = ''off'',
                   eo_flattenDepth = None\<rparr> = Inr toon"
    and "JSON_parse ''{x:}'' = Inl e"
  shows "main parseArgs JSON_parse encode argv world_ab
         = (\<lparr>files = [([''input_json''], Dir),
                      ([''input_json'', ''a.json''], File doc_x1),
                      ([''input_json'', ''b.json''], File ''{x:}''),
                      ([''output_toon''], Dir),
                      ([''output_toon'', ''a.toon''], File toon)],
             console = [(ERROR, ''Failed to convert b.json. '' @ message e),
                        (LOG, summary_header),
                        (LOG, ''  Processed: 2''), (LOG, ''  Converted: 1''),
                        (LOG, ''  Skipped:   0''), (LOG, ''  Failed:    1'')],
             ops = [Mkdir [''input_json''], Mkdir [''output_toon''], Readdir [''input_json''],
                    Stat [''input_json'', ''a.json''], ReadFile [''input_json'', ''a.json''],
                    Encode d, WriteFile [''output_toon'', ''a.toon''] toon,
                    Stat [''input_json'', ''b.json''], ReadFile [''input_json'', ''b.json'']]\<rparr>,
            0)"
  using assms by (rule main_world_ab)

theorem scenario_two_files_witness:
  "parseArgs_sample [] = Inr default_values \<and>
   JSON_parse_sample doc_x1 = Inr doc_x1 \<and>
   encode_sample doc_x1 \<lparr>eo_delimiter = Some '','', eo_indent = Num False 2, eo_keyFolding = ''off'',
                          eo_flattenDepth = None\<rparr> = Inr ''x: 1'' \<and>
   JSON_parse_sample ''{x:}'' = Inl (Error ''Unexpected token x in JSON at position 1'') \<and>
   lookup (files (fst (main parseArgs_sample JSON_parse_sample encode_sample [] world_ab)))
     [''output_toon'', ''a.toon''] = Some (File ''x: 1'') \<and>
   snd (main parseArgs_sample JSON_parse_sample encode_sample [] world_ab) = 0"
proof -
  have a: "parseArgs_sample [] = Inr default_values"
    by (simp add: parseArgs_sample_def)
  have b: "JSON_parse_sample doc_x1 = Inr doc_x1"
    by (simp add: JSON_parse_sample_def)
  have c: "encode_sample doc_x1 \<lparr>eo_delimiter = Some '','', eo_indent = Num False 2,
             eo_keyFolding = ''off'', eo_flattenDepth = None\<rparr> = Inr ''x: 1''"
    by (simp add: encode_sample_def)
  have d: "JSON_parse_sample ''{x:}'' = Inl (Error ''Unexpected token x in JSON at position 1'')"
    by (simp add: JSON_parse_sample_def doc_x1_def)
  show ?thesis
    using a b c d scenario_two_files [where parseArgs = parseArgs_sample and argv = "[]"
        and JSON_parse = JSON_parse_sample and encode = encode_sample, OF a b c d]
    by (simp add: lookup_def)
qed

text \<open>
  C10. No run creates, changes or deletes anything below the input directory: after a run
  of either script every path strictly below \<open>input_json\<close> holds what it held before. The
  calls a run adds to the trace are confined: it reads (and takes the status of) paths
  inside the input directory only, every \<open>writeFile\<close> goes to a path inside the output
  directory, the only \<open>rm\<close> is that of the output directory, and \<open>mkdir\<close> is called on the
  two directories themselves.
\<close>

theorem input_directory_untouched:
  assumes "w' = fst (main parseArgs JSON_parse encode argv w) \<or>
           w' = fst (script_main cwd JSON_parse encode w)"
  shows "(\<forall>p. strict_prefix INPUT_DIR p \<longrightarrow> lookup (files w') p = lookup (files w) p) \<and>
         ops w' = ops w @ new_ops w w' \<and> list_all confined (new_ops w w')"
proof -
  from assms have f: "frame_ok w w'"
  proof
    assume "w' = fst (main parseArgs JSON_parse encode argv w)"
    then show ?thesis
      by (cases "main parseArgs JSON_parse encode argv w") (auto intro: frame_main)
  next
    assume "w' = fst (script_main cwd JSON_parse encode w)"
    then show ?thesis
      by (cases "script_main cwd JSON_parse encode w") (auto intro: frame_script_main)
  qed
  then have b: "below INPUT_DIR (files w') = below INPUT_DIR (files w)"
    and o: "ops w' = ops w @ new_ops w w'" and a: "list_all (admitted (files w)) (new_ops w w')"
    by (auto dest: frame_okD)
  from a have c: "list_all confined (new_ops w w')"
    unfolding list_all_iff using admitted_confined by blast
  have "lookup (files w') p = lookup (files w) p" if "strict_prefix INPUT_DIR p" for p
    using lookup_below [OF that, of "files w'"] lookup_below [OF that, of "files w"] b by simp
  with o c show ?thesis by blast
qed

theorem input_directory_untouched_witness:
  "strict_prefix INPUT_DIR [''input_json'', ''b.json''] \<and>
   lookup (files (fst (main parseArgs_sample JSON_parse_sample encode_sample [] world_ab)))
     [''input_json'', ''b.json''] = Some (File ''{x:}'') \<and>
   new_ops world_ab (fst (main parseArgs_sample JSON_parse_sample encode_sample [] world_ab))
     = [Mkdir [''input_json''], Mkdir [''output_toon''], Readdir [''input_json''],
        Stat [''input_json'', ''a.json''], ReadFile [''input_json'', ''a.json''],
        Encode doc_x1, WriteFile [''output_toon'', ''a.toon''] ''x: 1'',
        Stat [''input_json'', ''b.json''], ReadFile [''input_json'', ''b.json'']] \<and>
   list_all confined
     (new_ops world_ab (fst (main parseArgs_sample JSON_parse_sample encode_sample [] world_ab)))"
proof -
  have m: "main parseArgs_sample JSON_parse_sample encode_sample [] world_ab
         = (\<lparr>files = [([''input_json''], Dir),
                      ([''input_json'', ''a.json''], File doc_x1),
                      ([''input_json'', ''b.json''], File ''{x:}''),
                      ([''output_toon''], Dir),
                      ([''output_toon'', ''a.toon''], File ''x: 1'')],
             console = [(ERROR, ''Failed to convert b.json. ''
                           @ message (Error ''Unexpected token x in JSON at position 1'')),
                        (LOG, summary_header),
                        (LOG, ''  Processed: 2''), (LOG, ''  Converted: 1''),
                        (LOG, ''  Skipped:   0''), (LOG, ''  Failed:    1'')],
             ops = [Mkdir [''input_json''], Mkdir [''output_toon''], Readdir [''input_json''],
                    Stat [''input_json'', ''a.json''], ReadFile [''input_json'', ''a.json''],
                    Encode doc_x1, WriteFile [''output_toon'', ''a.toon''] ''x: 1'',
                    Stat [''input_json'', ''b.json''], ReadFile [''input_json'', ''b.json'']]\<rparr>,
            0)"
    by (rule main_world_ab [where parseArgs = parseArgs_sample and argv = "[]"
          and JSON_parse = JSON_parse_sample and encode = encode_sample and d = doc_x1])
       (simp_all add: parseArgs_sample_def JSON_parse_sample_def encode_sample_def doc_x1_def)
  have s: "strict_prefix INPUT_DIR [''input_json'', ''b.json'']"
    by (simp add: INPUT_DIR_def strict_prefix_def)
  show ?thesis
    using s input_directory_untouched
            [of "fst (main parseArgs_sample JSON_parse_sample encode_sample [] world_ab)"
                parseArgs_sample JSON_parse_sample encode_sample "[]" world_ab, OF disjI1 [OF refl]]
    by (simp only: m fst_conv) (simp add: new_ops_def world_ab_def lookup_def)
qed

text \<open>
  C9 (amended). Between two entries, that is before the first iteration and after every
  iteration of the loop, the statistics satisfy
  \<open>converted + failed \<le> processed \<le> converted + failed + skipped\<close>; \<open>processed\<close> has grown by
  the number of regular files seen, \<open>skipped\<close> by the number of entries that are not regular
  files plus the number of regular files without a \<open>.json\<close> name. Inside an iteration,
  once \<open>processed\<close> is incremented and the entry goes on to the \<open>try\<close> statement, only
  \<open>converted + failed \<le> processed \<le> converted + failed + skipped + 1\<close> holds until the
  iteration ends. The claim as stated, at every point of the loop, fails there: in the
  first iteration on a regular \<open>.json\<close> file the statistics are 1, 0, 0, 0.
\<close>


theorem stats_invariant_between_entries:
  assumes "stats_inv s"
    and "process_entries JSON_parse encode options entries (s, w) = (s', w')"
  shows "stats_inv s' \<and>
         processed s' = processed s + length (filter (regular (files w)) entries) \<and>
         skipped s' = skipped s + length (filter (\<lambda>e. \<not> regular (files w) e) entries)
                        + length (filter (\<lambda>e. regular (files w) e \<and> \<not> json_named e) entries) \<and>
         (\<forall>entry s1 w1. classify options entry (s', w') = (True, s1, w1) \<longrightarrow>
            converted s1 + failed s1 \<le> processed s1 \<and>
            processed s1 \<le> converted s1 + failed s1 + skipped s1 + 1)"
proof -
  let ?R = "regular (files w)"
  from process_entries_counts [OF assms(2)]
  have p: "processed s' = processed s + length (filter ?R entries)"
    and k: "skipped s' = skipped s + length (filter (\<lambda>e. \<not> (?R e \<and> json_named e)) entries)"
    and c: "converted s' + failed s' =
              converted s + failed s + length (filter (\<lambda>e. ?R e \<and> json_named e) entries)"
    by simp_all
  have le: "length (filter (\<lambda>e. ?R e \<and> json_named e) entries) \<le> length (filter ?R entries)"
    by (induction entries) auto
  have split: "length (filter ?R entries) =
      length (filter (\<lambda>e. ?R e \<and> json_named e) entries)
      + length (filter (\<lambda>e. ?R e \<and> \<not> json_named e) entries)"
    by (induction entries) auto
  have k': "skipped s' = skipped s + length (filter (\<lambda>e. \<not> ?R e) entries)
                        + length (filter (\<lambda>e. ?R e \<and> \<not> json_named e) entries)"
    using k length_filter_not_both [of ?R json_named entries] by (simp only:)
  have inv: "stats_inv s'"
    using assms(1) p c k' split unfolding stats_inv_def by linarith
  from inv p k' classify_True_bounds [OF inv] show ?thesis by blast
qed

theorem stats_invariant_between_entries_witness:
  "stats_inv stats0 \<and>
   fst (process_entries JSON_parse_sample encode_sample default_options
          (dir_entries INPUT_DIR (files (world_ab_enumerated :: string world)))
          (stats0, world_ab_enumerated))
     = \<lparr>processed = 2, converted = 1, skipped = 0, failed = 1\<rparr> \<and>
   stats_inv \<lparr>processed = 2, converted = 1, skipped = 0, failed = 1\<rparr>"
proof -
  have i: "stats_inv stats0" by (simp add: stats_inv_def stats0_def)
  have e: "process_entries JSON_parse_sample encode_sample default_options
          (dir_entries INPUT_DIR (files (world_ab_enumerated :: string world)))
          (stats0, world_ab_enumerated)
     = (\<lparr>processed = 2, converted = 1, skipped = 0, failed = 1\<rparr>,
        \<lparr>files = [([''input_json''], Dir),
               ([''input_json'', ''a.json''], File doc_x1),
               ([''input_json'', ''b.json''], File ''{x:}''),
               ([''output_toon''], Dir),
               ([''output_toon'', ''a.toon''], File ''x: 1'')],
         console = [(ERROR, ''Failed to convert b.json. Unexpected token x in JSON at position 1'')],
         ops = [Mkdir [''input_json''], Mkdir [''output_toon''], Readdir [''input_json''],
                Stat [''input_json'', ''a.json''], ReadFile [''input_json'', ''a.json''],
                Encode doc_x1, WriteFile [''output_toon'', ''a.toon''] ''x: 1'',
                Stat [''input_json'', ''b.json''], ReadFile [''input_json'', ''b.json'']]\<rparr>)"
    by (simp add: run_defs sample_defs world_ab_enumerated_def default_options_def)
  show ?thesis
    using i stats_invariant_between_entries [OF i e] by (simp add: e)
qed

theorem stats_invariant_counterexample:
  "fst (classify default_options \<lparr>dirent_name = ''a.json'', dirent_isFile = True\<rparr>
          (stats0, world_ab_enumerated :: string world)) = True \<and>
   fst (snd (classify default_options \<lparr>dirent_name = ''a.json'', dirent_isFile = True\<rparr>
          (stats0, world_ab_enumerated :: string world)))
     = \<lparr>processed = 1, converted = 0, skipped = 0, failed = 0\<rparr> \<and>
   \<not> stats_inv \<lparr>processed = 1, converted = 0, skipped = 0, failed = 0\<rparr>"
  by (simp add: run_defs sample_defs world_ab_enumerated_def default_options_def stats_inv_def)



text \<open>
  C7. When the input directory has no entry at all, a run prints one informative message
  and ends with status 0 without printing the summary. For \<open>part_000\<close> this is the run
  whose options are valid and whose two directories can be created (the input directory
  may be missing: it is created, and is empty); for the plain script it is the run that
  finds the input directory.
\<close>


theorem empty_input_directory:
  assumes "dir_entries INPUT_DIR (files w) = []"
  shows "(parseCliOptions parseArgs argv = Inr options \<and>
          \<not> is_file_node (lookup (files w) INPUT_DIR) \<and>
          \<not> is_file_node (lookup (files w) OUTPUT_DIR) \<longrightarrow>
            snd (main parseArgs JSON_parse encode argv w) = 0 \<and>
            console (fst (main parseArgs JSON_parse encode argv w))
              = console w @ [(WARN, no_files_message)] \<and>
            (LOG, summary_header)
              \<notin> set (drop (length (console w))
                         (console (fst (main parseArgs JSON_parse encode argv w))))) \<and>
         (lookup (files w) INPUT_DIR = Some Dir \<longrightarrow>
            snd (script_main cwd JSON_parse encode w) = 0 \<and>
            console (fst (script_main cwd JSON_parse encode w))
              = console w
                @ [(LOG, rocket @ '' Starting batch JSON to TOON conversion...'' @ [CHR 0x0A])]
                @ (if lookup (files w) OUTPUT_DIR = None
                   then [(LOG, folder @ '' Created output directory: ''
                               @ absolute cwd OUTPUT_DIR)]
                   else [])
                @ [(LOG, mailbox @ '' No JSON files found in input_json directory.''),
                   (LOG, ''   Add .json files to the input_json directory and run again.'')] \<and>
            (LOG, script_summary_header)
              \<notin> set (drop (length (console w))
                         (console (fst (script_main cwd JSON_parse encode w)))))"
proof (intro conjI impI)
  assume a: "parseCliOptions parseArgs argv = Inr options \<and>
          \<not> is_file_node (lookup (files w) INPUT_DIR) \<and>
          \<not> is_file_node (lookup (files w) OUTPUT_DIR)"
  with main_empty [of parseArgs argv options w JSON_parse encode] assms
  have m: "snd (main parseArgs JSON_parse encode argv w) = 0"
    "console (fst (main parseArgs JSON_parse encode argv w))
           = console w @ [(WARN, no_files_message)]"
    by simp_all
  show "snd (main parseArgs JSON_parse encode argv w) = 0" by (rule m(1))
  show "console (fst (main parseArgs JSON_parse encode argv w))
           = console w @ [(WARN, no_files_message)]" by (rule m(2))
  show "(LOG, summary_header)
              \<notin> set (drop (length (console w))
                         (console (fst (main parseArgs JSON_parse encode argv w))))"
    by (simp add: m(2))
next
  assume a: "lookup (files w) INPUT_DIR = Some Dir"
  note s = script_main_empty [OF a assms, of cwd JSON_parse encode]
  show "snd (script_main cwd JSON_parse encode w) = 0" using s by simp
  show "console (fst (script_main cwd JSON_parse encode w))
              = console w
                @ [(LOG, rocket @ '' Starting batch JSON to TOON conversion...'' @ [CHR 0x0A])]
                @ (if lookup (files w) OUTPUT_DIR = None
                   then [(LOG, folder @ '' Created output directory: ''
                               @ absolute cwd OUTPUT_DIR)]
                   else [])
                @ [(LOG, mailbox @ '' No JSON files found in input_json directory.''),
                   (LOG, ''   Add .json files to the input_json directory and run again.'')]"
    using s by simp
  show "(LOG, script_summary_header)
              \<notin> set (drop (length (console w))
                         (console (fst (script_main cwd JSON_parse encode w))))"
    using s
    by (simp add: script_summary_header_def rocket_def folder_def mailbox_def bar_chart_def)
qed

theorem empty_input_directory_witness:
  "dir_entries INPUT_DIR (files (world_empty_input :: string world)) = [] \<and>
   parseCliOptions parseArgs_sample [] = Inr default_options \<and>
   \<not> is_file_node (lookup (files (world_empty_input :: string world)) INPUT_DIR) \<and>
   \<not> is_file_node (lookup (files (world_empty_input :: string world)) OUTPUT_DIR) \<and>
   lookup (files (world_empty_input :: string world)) INPUT_DIR = Some Dir \<and>
   snd (main parseArgs_sample JSON_parse_sample encode_sample [] world_empty_input) = 0 \<and>
   console (fst (main parseArgs_sample JSON_parse_sample encode_sample [] world_empty_input))
     = [(WARN, no_files_message)] \<and>
   snd (script_main ''/work'' JSON_parse_sample encode_sample world_empty_input) = 0"
proof -
  have a: "dir_entries INPUT_DIR (files (world_empty_input :: string world)) = []"
    by (simp add: dir_entries_def children_def world_empty_input_def INPUT_DIR_def)
  have b: "\<not> is_file_node (lookup (files (world_empty_input :: string world)) INPUT_DIR)"
    "\<not> is_file_node (lookup (files (world_empty_input :: string world)) OUTPUT_DIR)"
    "lookup (files (world_empty_input :: string world)) INPUT_DIR = Some Dir"
    by (simp_all add: world_empty_input_def lookup_def INPUT_DIR_def OUTPUT_DIR_def)
  have c: "console (world_empty_input :: string world) = []"
    by (simp add: world_empty_input_def)
  from empty_input_directory
         [where parseArgs = parseArgs_sample and argv = "[]" and options = default_options
            and JSON_parse = JSON_parse_sample and encode = encode_sample
            and cwd = "''/work''", OF a]
    parseCliOptions_sample_default a b
  show ?thesis by (simp add: c)
qed

text \<open>
  C8. In a run of \<open>part_000\<close> with the clean flag (valid options, and neither directory
  path taken by a regular file), \<open>emptyOutputDir\<close> always succeeds, also when the output
  directory did not exist, and leaves an output directory with nothing below it. It runs
  right after the two directories are made and before the input directory is enumerated,
  so before any entry is processed. At the end of the run the only paths below the output
  directory are outputs of entries of the input directory: a file there that is the
  output of no entry no longer exists.
\<close>


theorem clean_empties_output_directory:
  assumes "parseCliOptions parseArgs argv = Inr options" and "clean options"
    and "\<not> is_file_node (lookup (files w) INPUT_DIR)"
    and "\<not> is_file_node (lookup (files w) OUTPUT_DIR)"
  shows "(\<forall>w0 :: 'j world. \<exists>w1. emptyOutputDir w0 = (Inr (), w1) \<and>
            lookup (files w1) OUTPUT_DIR = Some Dir \<and>
            (\<forall>p. strict_prefix OUTPUT_DIR p \<longrightarrow> lookup (files w1) p = None)) \<and>
         take 5 (new_ops w (fst (main parseArgs JSON_parse encode argv w)))
           = [Mkdir INPUT_DIR, Mkdir OUTPUT_DIR, Rm OUTPUT_DIR, Mkdir OUTPUT_DIR,
              Readdir INPUT_DIR] \<and>
         (\<forall>p. strict_prefix OUTPUT_DIR p \<and>
              lookup (files (fst (main parseArgs JSON_parse encode argv w))) p \<noteq> None \<longrightarrow>
              (\<exists>entry \<in> set (dir_entries INPUT_DIR (files w)).
                 p = OUTPUT_DIR @ [parse_name (dirent_name entry) @ ''.toon''])) \<and>
         (\<forall>stale. (\<forall>entry \<in> set (dir_entries INPUT_DIR (files w)).
                      parse_name (dirent_name entry) @ ''.toon'' \<noteq> stale) \<longrightarrow>
              lookup (files (fst (main parseArgs JSON_parse encode argv w)))
                (OUTPUT_DIR @ [stale]) = None)"
proof (intro conjI allI impI)
  fix w0 :: "'j world"
  from emptyOutputDir_ok [of w0]
  obtain w1 where 1: "emptyOutputDir w0 = (Inr (), w1)" "lookup (files w1) OUTPUT_DIR = Some Dir"
    "below OUTPUT_DIR (files w1) = []" by blast
  from 1(3) have "\<forall>p. strict_prefix OUTPUT_DIR p \<longrightarrow> lookup (files w1) p = None"
    by (auto intro: below_empty_lookup)
  with 1 show "\<exists>w1. emptyOutputDir w0 = (Inr (), w1) \<and>
            lookup (files w1) OUTPUT_DIR = Some Dir \<and>
            (\<forall>p. strict_prefix OUTPUT_DIR p \<longrightarrow> lookup (files w1) p = None)"
    by blast
next
  show "take 5 (new_ops w (fst (main parseArgs JSON_parse encode argv w)))
           = [Mkdir INPUT_DIR, Mkdir OUTPUT_DIR, Rm OUTPUT_DIR, Mkdir OUTPUT_DIR,
              Readdir INPUT_DIR]"
    by (rule main_clean(1) [OF assms])
next
  fix p
  assume "strict_prefix OUTPUT_DIR p \<and>
              lookup (files (fst (main parseArgs JSON_parse encode argv w))) p \<noteq> None"
  then show "\<exists>entry \<in> set (dir_entries INPUT_DIR (files w)).
                 p = OUTPUT_DIR @ [parse_name (dirent_name entry) @ ''.toon'']"
    using main_clean(2) [OF assms, of p JSON_parse encode] by blast
next
  fix stale
  assume a: "\<forall>entry \<in> set (dir_entries INPUT_DIR (files w)).
                      parse_name (dirent_name entry) @ ''.toon'' \<noteq> stale"
  show "lookup (files (fst (main parseArgs JSON_parse encode argv w)))
                (OUTPUT_DIR @ [stale]) = None"
  proof (rule ccontr)
    assume "lookup (files (fst (main parseArgs JSON_parse encode argv w)))
                (OUTPUT_DIR @ [stale]) \<noteq> None"
    from main_clean(2) [OF assms out_below this] a show False by auto
  qed
qed

theorem clean_empties_output_directory_witness:
  "parseCliOptions parseArgs_sample [''--clean''] = Inr (default_options\<lparr>clean := True\<rparr>) \<and>
   clean (default_options\<lparr>clean := True\<rparr>) \<and>
   \<not> is_file_node (lookup (files (world_mixed :: string world)) INPUT_DIR) \<and>
   \<not> is_file_node (lookup (files (world_mixed :: string world)) OUTPUT_DIR) \<and>
   lookup (files (world_mixed :: string world)) (OUTPUT_DIR @ [''stale.toon''])
     = Some (File ''old'') \<and>
   lookup (files (fst (main parseArgs_sample JSON_parse_sample encode_sample [''--clean'']
                         world_mixed)))
     (OUTPUT_DIR @ [''stale.toon'']) = None"
proof -
  have a: "parseCliOptions parseArgs_sample [''--clean''] = Inr (default_options\<lparr>clean := True\<rparr>)"
    by (simp add: parseCliOptions_def parseArgs_sample_def default_values_def default_options_def
          nan_or_negative_def DELIMITERS_def DEFAULT_DELIMITER_def)
  have b: "clean (default_options\<lparr>clean := True\<rparr>)" by simp
  have c: "\<not> is_file_node (lookup (files (world_mixed :: string world)) INPUT_DIR)"
    and d: "\<not> is_file_node (lookup (files (world_mixed :: string world)) OUTPUT_DIR)"
    and e: "lookup (files (world_mixed :: string world)) (OUTPUT_DIR @ [''stale.toon''])
              = Some (File ''old'')"
    by (simp_all add: world_mixed_def lookup_def INPUT_DIR_def OUTPUT_DIR_def)
  have f: "\<forall>entry \<in> set (dir_entries INPUT_DIR (files (world_mixed :: string world))).
             parse_name (dirent_name entry) @ ''.toon'' \<noteq> ''stale.toon''"
    by (simp add: dir_entries_def children_def world_mixed_def INPUT_DIR_def parse_name_def)
  from clean_empties_output_directory
         [where parseArgs = parseArgs_sample and argv = "[''--clean'']"
            and JSON_parse = JSON_parse_sample and encode = encode_sample, OF a b c d] f
  have "lookup (files (fst (main parseArgs_sample JSON_parse_sample encode_sample [''--clean'']
                         world_mixed)))
     (OUTPUT_DIR @ [''stale.toon'']) = None"
    by blast
  with a b c d e show ?thesis by blast
qed

text \<open>
  C6. Take a run of \<open>part_000\<close> with valid options whose directories can be made, and an
  entry of the input directory that is a regular file with a \<open>.json\<close> name whose content
  does not parse, or whose document the encoder rejects. The run is not aborted: it ends
  with status 0 after the summary. The failure is printed with the name of the file and
  the reason, and the statistics of the summary count at least one failure. Every entry
  of the directory is counted exactly once as converted, skipped or failed. Every other
  entry that parses and encodes is still read, encoded and written, wherever it stands
  in the enumeration. The entry itself is counted as processed and failed and changes
  no file.
\<close>


theorem failing_entry_does_not_abort:
  assumes "parseCliOptions parseArgs argv = Inr options"
    and "\<not> is_file_node (lookup (files w) INPUT_DIR)"
    and "\<not> is_file_node (lookup (files w) OUTPUT_DIR)"
    and "entry \<in> set (dir_entries INPUT_DIR (files w))"
    and "lookup (files w) (INPUT_DIR @ [dirent_name entry]) = Some (File raw)"
    and "json_named entry"
    and "JSON_parse raw = Inl e \<or>
         (\<exists>d. JSON_parse raw = Inr d \<and> encode d (encode_options options) = Inl e)"
  shows "snd (main parseArgs JSON_parse encode argv w) = 0 \<and>
         (\<exists>pre post s'.
            console (fst (main parseArgs JSON_parse encode argv w))
              = console w @ pre
                @ (ERROR, ''Failed to convert '' @ dirent_name entry @ ''. '' @ message e) # post
                @ summary_lines s' \<and>
            1 \<le> failed s' \<and>
            converted s' + skipped s' + failed s' = length (dir_entries INPUT_DIR (files w)) \<and>
            processed s'
              = length (filter (regular (files w)) (dir_entries INPUT_DIR (files w)))) \<and>
         (\<forall>other raw' d toon.
            other \<in> set (dir_entries INPUT_DIR (files w)) \<and>
            lookup (files w) (INPUT_DIR @ [dirent_name other]) = Some (File raw') \<and>
            json_named other \<and> JSON_parse raw' = Inr d \<and>
            encode d (encode_options options) = Inr toon \<longrightarrow>
            (\<exists>pre post.
               new_ops w (fst (main parseArgs JSON_parse encode argv w))
                 = pre @ [ReadFile (INPUT_DIR @ [dirent_name other]), Encode d,
                          WriteFile (OUTPUT_DIR @ [parse_name (dirent_name other) @ ''.toon''])
                            toon] @ post)) \<and>
         (\<forall>s w0. lookup (files w0) (INPUT_DIR @ [dirent_name entry]) = Some (File raw) \<longrightarrow>
            (\<exists>w1. process_entry JSON_parse encode options entry (s, w0) =
                     (s\<lparr>processed := processed s + 1, failed := failed s + 1\<rparr>, w1) \<and>
                   console w1 = console w0
                     @ [(ERROR, ''Failed to convert '' @ dirent_name entry @ ''. ''
                                @ message e)] \<and>
                   files w1 = files w0))"
proof -
  let ?es = "dir_entries INPUT_DIR (files w)"
  let ?w' = "fst (main parseArgs JSON_parse encode argv w)"
  let ?line = "(ERROR, ''Failed to convert '' @ dirent_name entry @ ''. '' @ message e)"
  from assms(4) have ne: "?es \<noteq> []" by auto
  from main_run [OF assms(1-3) ne, of JSON_parse encode]
  obtain w3 s4 w4 where r: "console w3 = console w"
    "ops w3 = ops w @ [Mkdir INPUT_DIR, Mkdir OUTPUT_DIR]
                      @ (if clean options then [Rm OUTPUT_DIR, Mkdir OUTPUT_DIR] else [])
                      @ [Readdir INPUT_DIR]"
    "below INPUT_DIR (files w3) = below INPUT_DIR (files w)"
    "process_entries JSON_parse encode options ?es (stats0, w3) = (s4, w4)"
    "main parseArgs JSON_parse encode argv w = (logSummary s4 w4, 0)"
    by blast
  have same: "lookup (files w3) (INPUT_DIR @ [n]) = lookup (files w) (INPUT_DIR @ [n])" for n
    by (rule lookup_below_eq [OF r(3) in_below])
  have reg: "regular (files w3) = regular (files w)"
    by (rule ext) (rule regular_below [OF r(3)])
  have exit: "snd (main parseArgs JSON_parse encode argv w) = 0" by (simp add: r(5))
  have l3: "lookup (files w3) (INPUT_DIR @ [dirent_name entry]) = Some (File raw)"
    using assms(5) by (simp add: same)
  from process_entries_fail_member
         [where JSON_parse = JSON_parse and encode = encode, OF assms(4) l3 assms(6,7) r(4)]
  obtain pre post where c: "console w4 = console w3 @ pre @ ?line # post"
    and f: "failed stats0 < failed s4"
    by blast
  from process_entries_total [OF r(4)]
  have t: "converted s4 + skipped s4 + failed s4 = length ?es" by (simp add: stats0_def)
  from process_entries_counts [OF r(4)]
  have p: "processed s4 = length (filter (regular (files w)) ?es)"
    by (simp add: stats0_def reg)
  have "console ?w' = console w @ pre @ ?line # post @ summary_lines s4"
    by (simp add: r(5) logSummary_console_eq c r(1))
  with f t p have summary: "\<exists>pre post s'.
            console ?w' = console w @ pre @ ?line # post @ summary_lines s' \<and>
            1 \<le> failed s' \<and>
            converted s' + skipped s' + failed s' = length ?es \<and>
            processed s' = length (filter (regular (files w)) ?es)"
    by (intro exI [of _ pre] exI [of _ post] exI [of _ s4]) simp
  have others: "\<exists>pre post.
               new_ops w ?w'
                 = pre @ [ReadFile (INPUT_DIR @ [dirent_name other]), Encode d,
                          WriteFile (OUTPUT_DIR @ [parse_name (dirent_name other) @ ''.toon''])
                            toon] @ post"
    if o: "other \<in> set ?es \<and>
            lookup (files w) (INPUT_DIR @ [dirent_name other]) = Some (File raw') \<and>
            json_named other \<and> JSON_parse raw' = Inr d \<and>
            encode d (encode_options options) = Inr toon"
    for other raw' d toon
  proof -
    let ?three = "[ReadFile (INPUT_DIR @ [dirent_name other]), Encode d,
                   WriteFile (OUTPUT_DIR @ [parse_name (dirent_name other) @ ''.toon'']) toon]"
    from o have m: "other \<in> set ?es"
      and l: "lookup (files w3) (INPUT_DIR @ [dirent_name other]) = Some (File raw')"
      and j: "json_named other" and pd: "JSON_parse raw' = Inr d"
      and en: "encode d (encode_options options) = Inr toon"
      by (simp_all add: same)
    from process_entries_good_member
           [where JSON_parse = JSON_parse and encode = encode, OF m l j pd en r(4)]
    obtain pre post where "ops w4 = ops w3 @ pre @ ?three @ post" by blast
    then have "ops ?w' = ops w @ ([Mkdir INPUT_DIR, Mkdir OUTPUT_DIR]
                      @ (if clean options then [Rm OUTPUT_DIR, Mkdir OUTPUT_DIR] else [])
                      @ [Readdir INPUT_DIR] @ pre) @ ?three @ post"
      by (simp add: r(5) r(2) logSummary_files_ops)
    then have "new_ops w ?w' = ([Mkdir INPUT_DIR, Mkdir OUTPUT_DIR]
                      @ (if clean options then [Rm OUTPUT_DIR, Mkdir OUTPUT_DIR] else [])
                      @ [Readdir INPUT_DIR] @ pre) @ ?three @ post"
      by (simp add: new_ops_def)
    then show ?thesis by blast
  qed
  have one: "\<exists>w1. process_entry JSON_parse encode options entry (s, w0) =
                     (s\<lparr>processed := processed s + 1, failed := failed s + 1\<rparr>, w1) \<and>
                   console w1 = console w0 @ [?line] \<and> files w1 = files w0"
    if "lookup (files w0) (INPUT_DIR @ [dirent_name entry]) = Some (File raw)" for s w0
    by (rule process_entry_fail [where JSON_parse = JSON_parse and encode = encode,
          OF that assms(6,7)])
  from exit summary others one show ?thesis by blast
qed

lemma main_world_bc:
  "main parseArgs_sample JSON_parse_sample encode_sample [] world_bc
     = (\<lparr>files = [([''input_json''], Dir),
                  ([''input_json'', ''b.json''], File ''{x:}''),
                  ([''input_json'', ''c.json''], File doc_x1),
                  ([''output_toon''], Dir),
                  ([''output_toon'', ''c.toon''], File ''x: 1'')],
         console = [(ERROR, ''Failed to convert b.json. Unexpected token x in JSON at position 1''),
                    (LOG, summary_header),
                    (LOG, ''  Processed: 2''), (LOG, ''  Converted: 1''),
                    (LOG, ''  Skipped:   0''), (LOG, ''  Failed:    1'')],
         ops = [Mkdir [''input_json''], Mkdir [''output_toon''], Readdir [''input_json''],
                Stat [''input_json'', ''b.json''], ReadFile [''input_json'', ''b.json''],
                Stat [''input_json'', ''c.json''], ReadFile [''input_json'', ''c.json''],
                Encode doc_x1, WriteFile [''output_toon'', ''c.toon''] ''x: 1'']\<rparr>, 0)"
proof -
  have neq: "doc_x1 \<noteq> ''{x:}''" by (simp add: doc_x1_def)
  show ?thesis
    using neq
    by (simp add: run_defs world_bc_def parseArgs_sample_def JSON_parse_sample_def
          encode_sample_def)
qed

theorem failing_entry_does_not_abort_witness:
  "parseCliOptions parseArgs_sample [] = Inr default_options \<and>
   \<not> is_file_node (lookup (files (world_bc :: string world)) INPUT_DIR) \<and>
   \<not> is_file_node (lookup (files (world_bc :: string world)) OUTPUT_DIR) \<and>
   \<lparr>dirent_name = ''b.json'', dirent_isFile = True\<rparr>
     \<in> set (dir_entries INPUT_DIR (files (world_bc :: string world))) \<and>
   lookup (files (world_bc :: string world)) (INPUT_DIR @ [''b.json'']) = Some (File ''{x:}'') \<and>
   json_named \<lparr>dirent_name = ''b.json'', dirent_isFile = True\<rparr> \<and>
   JSON_parse_sample ''{x:}'' = Inl (Error ''Unexpected token x in JSON at position 1'') \<and>
   snd (main parseArgs_sample JSON_parse_sample encode_sample [] world_bc) = 0 \<and>
   (\<exists>pre post.
      new_ops world_bc (fst (main parseArgs_sample JSON_parse_sample encode_sample [] world_bc))
        = pre @ [ReadFile (INPUT_DIR @ [''c.json'']), Encode doc_x1,
                 WriteFile (OUTPUT_DIR @ [''c.toon'']) ''x: 1''] @ post) \<and>
   lookup (files (fst (main parseArgs_sample JSON_parse_sample encode_sample [] world_bc)))
     [''output_toon'', ''c.toon''] = Some (File ''x: 1'')"
proof -
  let ?b = "\<lparr>dirent_name = ''b.json'', dirent_isFile = True\<rparr>"
  let ?c = "\<lparr>dirent_name = ''c.json'', dirent_isFile = True\<rparr>"
  have es: "dir_entries INPUT_DIR (files (world_bc :: string world)) = [?b, ?c]"
    by (simp add: dir_entries_def children_def world_bc_def INPUT_DIR_def lookup_def
          is_file_node_def)
  have h1: "\<not> is_file_node (lookup (files (world_bc :: string world)) INPUT_DIR)"
    and h2: "\<not> is_file_node (lookup (files (world_bc :: string world)) OUTPUT_DIR)"
    and h4: "lookup (files (world_bc :: string world)) (INPUT_DIR @ [dirent_name ?b])
               = Some (File ''{x:}'')"
    and c1: "lookup (files (world_bc :: string world)) (INPUT_DIR @ [dirent_name ?c])
               = Some (File doc_x1)"
    by (simp_all add: world_bc_def lookup_def INPUT_DIR_def OUTPUT_DIR_def)
  have h3: "?b \<in> set (dir_entries INPUT_DIR (files (world_bc :: string world)))"
    and c0: "?c \<in> set (dir_entries INPUT_DIR (files (world_bc :: string world)))"
    by (simp_all add: es)
  have h5: "json_named ?b" and c2: "json_named ?c"
    by (simp_all add: json_named_def endsWith_def toLowerCase_def lower_char_def suffix_to_prefix)
  have h6: "JSON_parse_sample ''{x:}'' = Inl (Error ''Unexpected token x in JSON at position 1'')"
    by (simp add: JSON_parse_sample_def doc_x1_def)
  have c3: "JSON_parse_sample doc_x1 = Inr doc_x1" by (simp add: JSON_parse_sample_def)
  have c4: "encode_sample doc_x1 (encode_options default_options) = Inr ''x: 1''"
    by (simp add: encode_sample_def)
  note t = failing_entry_does_not_abort
             [where parseArgs = parseArgs_sample and argv = "[]" and JSON_parse = JSON_parse_sample
                and encode = encode_sample and w = "world_bc :: string world",
              OF parseCliOptions_sample_default h1 h2 h3 h4 h5 disjI1 [OF h6]]
  from t have x: "snd (main parseArgs_sample JSON_parse_sample encode_sample [] world_bc) = 0"
    by blast
  from t c0 c1 c2 c3 c4
  have y: "\<exists>pre post.
      new_ops world_bc (fst (main parseArgs_sample JSON_parse_sample encode_sample [] world_bc))
        = pre @ [ReadFile (INPUT_DIR @ [dirent_name ?c]), Encode doc_x1,
                 WriteFile (OUTPUT_DIR @ [parse_name (dirent_name ?c) @ ''.toon'']) ''x: 1'']
          @ post"
    by blast
  have pn: "parse_name (dirent_name ?c) @ ''.toon'' = ''c.toon''"
    by (simp add: parse_name_def)
  have z: "lookup (files (fst (main parseArgs_sample JSON_parse_sample encode_sample [] world_bc)))
     [''output_toon'', ''c.toon''] = Some (File ''x: 1'')"
    by (simp add: main_world_bc lookup_def)
  from parseCliOptions_sample_default h1 h2 h3 h4 h5 h6 x y [unfolded pn] z
  show ?thesis by simp
qed




text \<open>
  C5 (the code does not do this). Option resolution should fail when the value of
  \<open>--indent\<close> is not a non-negative integer, as the error text of the code itself says.
  \<open>Number.parseInt\<close> stops at the first character that is no digit, so a value that is the
  digit 3 followed by anything that does not begin with a digit (\<open>3abc\<close>, \<open>3.5\<close>, \<open>3e3\<close>),
  which is no non-negative integer, is accepted as 3 and the run goes on to the end with
  status 0. The rest of the claim holds: without options the indentation is 2, and whatever
  error option resolution raises, the run prints it and ends with status 1 with no
  file-system call made and no file changed.
\<close>

theorem indent_prefix_accepted:
  "(parseArgs argv = Inr (default_values\<lparr>v_indent := Some (''3'' @ rest)\<rparr>) \<and>
    rest \<noteq> [] \<and> \<not> is_digit (hd rest) \<longrightarrow>
      \<not> spec_nonneg_integer (''3'' @ rest) \<and>
      parseCliOptions parseArgs argv = Inr (default_options\<lparr>indent := Num False 3\<rparr>) \<and>
      snd (main parseArgs JSON_parse encode argv world_empty_input) = 0 \<and>
      console (fst (main parseArgs JSON_parse encode argv world_empty_input))
        = [(WARN, no_files_message)]) \<and>
   (parseArgs argv = Inr default_values \<longrightarrow>
      parseCliOptions parseArgs argv = Inr default_options \<and>
      indent default_options = Num False 2) \<and>
   (\<forall>e. parseCliOptions parseArgs argv = Inl e \<longrightarrow>
      main parseArgs JSON_parse encode argv w = (say ERROR (message e) w, 1) \<and>
      files (fst (main parseArgs JSON_parse encode argv w)) = files w \<and>
      ops (fst (main parseArgs JSON_parse encode argv w)) = ops w)"
proof (intro conjI impI allI)
  assume h: "parseArgs argv = Inr (default_values\<lparr>v_indent := Some (''3'' @ rest)\<rparr>) \<and>
             rest \<noteq> [] \<and> \<not> is_digit (hd rest)"
  then obtain r rs where r: "rest = r # rs" "\<not> is_digit r" by (cases rest) auto
  show a: "\<not> spec_nonneg_integer (''3'' @ rest)"
    using r by (simp add: spec_nonneg_integer_def)
  have t: "trim_start (''3'' @ rest) = ''3'' @ rest"
    by (simp add: trim_start.simps white_space_length_def white_space_def)
  have d3: "is_digit CHR ''3''" by (simp add: is_digit_def)
  have p: "parseInt (''3'' @ rest) = Num False 3"
    using r d3 t by (simp add: parseInt_def Let_def digits_value_def to_double_def)
  show b: "parseCliOptions parseArgs argv = Inr (default_options\<lparr>indent := Num False 3\<rparr>)"
    using h p
    by (simp add: parseCliOptions_def default_values_def default_options_def
          nan_or_negative_def DELIMITERS_def DEFAULT_DELIMITER_def)
  have c: "dir_entries INPUT_DIR (files (world_empty_input :: 'a world)) = []"
    by (simp add: dir_entries_def children_def world_empty_input_def INPUT_DIR_def)
  have d: "\<not> is_file_node (lookup (files (world_empty_input :: 'a world)) INPUT_DIR)"
    "\<not> is_file_node (lookup (files (world_empty_input :: 'a world)) OUTPUT_DIR)"
    by (simp_all add: world_empty_input_def lookup_def INPUT_DIR_def OUTPUT_DIR_def)
  from main_empty [where parseArgs = parseArgs and argv = argv and JSON_parse = JSON_parse
         and encode = encode, OF b d c]
  show "snd (main parseArgs JSON_parse encode argv world_empty_input) = 0"
    and "console (fst (main parseArgs JSON_parse encode argv world_empty_input))
           = [(WARN, no_files_message)]"
    by (simp_all add: world_empty_input_def)
next
  assume "parseArgs argv = Inr default_values"
  then show "parseCliOptions parseArgs argv = Inr default_options"
    by (simp add: parseCliOptions_def default_values_def default_options_def
          nan_or_negative_def DELIMITERS_def DEFAULT_DELIMITER_def)
  show "indent default_options = Num False 2" by (simp add: default_options_def)
next
  fix e
  assume "parseCliOptions parseArgs argv = Inl e"
  note m = main_options_fail [where parseArgs = parseArgs and argv = argv
             and JSON_parse = JSON_parse and encode = encode and w = w, OF this]
  show "main parseArgs JSON_parse encode argv w = (say ERROR (message e) w, 1)" by (rule m)
  show "files (fst (main parseArgs JSON_parse encode argv w)) = files w"
    by (simp add: m say_def)
  show "ops (fst (main parseArgs JSON_parse encode argv w)) = ops w"
    by (simp add: m say_def)
qed

theorem indent_prefix_accepted_witness:
  "parseArgs_sample [''--indent'', ''3abc''] = Inr (default_values\<lparr>v_indent := Some ''3abc''\<rparr>) \<and>
   \<not> is_digit (hd ''abc'') \<and>
   \<not> spec_nonneg_integer ''3abc'' \<and>
   parseCliOptions parseArgs_sample [''--indent'', ''3abc'']
     = Inr (default_options\<lparr>indent := Num False 3\<rparr>) \<and>
   snd (main parseArgs_sample JSON_parse_sample encode_sample [''--indent'', ''3abc'']
          world_empty_input) = 0 \<and>
   parseArgs_sample [] = Inr default_values \<and>
   parseCliOptions parseArgs_sample [] = Inr default_options \<and>
   parseCliOptions parseArgs_sample [''--indent'', ''abc'']
     = Inl (Error ''`--indent` must be a non-negative integer'') \<and>
   main parseArgs_sample JSON_parse_sample encode_sample [''--indent'', ''abc''] world_ab
     = (say ERROR ''`--indent` must be a non-negative integer'' world_ab, 1)"
proof -
  have a: "parseArgs_sample [''--indent'', ''3abc'']
             = Inr (default_values\<lparr>v_indent := Some (''3'' @ ''abc'')\<rparr>)"
    by (simp add: parseArgs_sample_def)
  have n: "''abc'' \<noteq> []" by simp
  have h: "\<not> is_digit (hd ''abc'')" by (simp add: is_digit_def)
  have d: "parseArgs_sample [] = Inr default_values" by (simp add: parseArgs_sample_def)
  have e: "parseCliOptions parseArgs_sample [''--indent'', ''abc'']
             = Inl (Error ''`--indent` must be a non-negative integer'')"
    by (simp add: parseCliOptions_def parseArgs_sample_def default_values_def
          parseInt_examples nan_or_negative_def)
  note t1 = indent_prefix_accepted [where parseArgs = parseArgs_sample
           and argv = "[''--indent'', ''3abc'']" and JSON_parse = JSON_parse_sample
           and encode = encode_sample and rest = "''abc''"]
  note t2 = indent_prefix_accepted [where parseArgs = parseArgs_sample
           and argv = "[]" and JSON_parse = JSON_parse_sample and encode = encode_sample]
  note t3 = indent_prefix_accepted [where parseArgs = parseArgs_sample
           and argv = "[''--indent'', ''abc'']" and JSON_parse = JSON_parse_sample
           and encode = encode_sample and w = "world_ab :: string world"]
  from t1 a n h have 1: "\<not> spec_nonneg_integer ''3abc''"
    "parseCliOptions parseArgs_sample [''--indent'', ''3abc'']
       = Inr (default_options\<lparr>indent := Num False 3\<rparr>)"
    "snd (main parseArgs_sample JSON_parse_sample encode_sample [''--indent'', ''3abc'']
          world_empty_input) = 0"
    by simp_all
  from t2 d have 2: "parseCliOptions parseArgs_sample [] = Inr default_options" by blast
  from t3 e have 3:
    "main parseArgs_sample JSON_parse_sample encode_sample [''--indent'', ''abc''] world_ab
       = (say ERROR ''`--indent` must be a non-negative integer'' world_ab, 1)"
    by simp
  from a h d e 1 2 3 show ?thesis by simp
qed

end
